theory Spec2Isabelle
  imports Complex_Main "HOL-Library.Multiset"
begin

section \<open>Tables\<close>

text \<open>
  The dashboard works on pandas tables. A table is modelled as its ordered column
  labels together with its rows, every row holding one cell per column, in column
  order. The row index labels of pandas play no part in the properties below and are
  left out.

  A cell is missing (\<open>NA\<close>, pandas' NaN/None), a text value, or a number. The number
  type is a parameter: any linear order stands for the non-NaN float64 values.
\<close>

datatype 'n cell = NA | Str string | Num 'n

text \<open>
  The exceptions the modelled code can raise. \<open>Unsupported\<close> is not one of them: it marks
  an input the model leaves out (a text column where the dashboard only ever has a
  numeric one, the same metric on both axes of the scatterplot), so that no statement
  is made about such inputs.
\<close>

datatype error = KeyError string | TypeError | ValueError | Unsupported

record 'c frame =
  columns :: "string list"
  rws :: "'c list list"

definition wf_frame :: "'c frame \<Rightarrow> bool" where
  "wf_frame df = list_all (\<lambda>r. length r = length (columns df)) (rws df)"

text \<open>Position of the first column labelled \<open>c\<close>.\<close>

definition col_index :: "string list \<Rightarrow> string \<Rightarrow> nat" where
  "col_index cols c = length (takeWhile (\<lambda>d. d \<noteq> c) cols)"

text \<open>\<open>df[c]\<close>: the cells of column \<open>c\<close>, or KeyError when there is no such column.\<close>

definition get_column :: "'c frame \<Rightarrow> string \<Rightarrow> error + 'c list" where
  "get_column df c =
     (if c \<in> set (columns df)
      then Inr (map (\<lambda>r. r ! col_index (columns df) c) (rws df))
      else Inl (KeyError c))"

text \<open>
  \<open>df[c] = vs\<close>: overwrites the cells under the label \<open>c\<close> when the table has that
  column, and appends a new last column otherwise.
\<close>

definition set_column :: "'c frame \<Rightarrow> string \<Rightarrow> 'c list \<Rightarrow> 'c frame" where
  "set_column df c vs =
     (if c \<in> set (columns df)
      then df\<lparr>rws := map2 (\<lambda>r v. map2 (\<lambda>d old. if d = c then v else old) (columns df) r)
                          (rws df) vs\<rparr>
      else df\<lparr>columns := columns df @ [c],
              rws := map2 (\<lambda>r v. r @ [v]) (rws df) vs\<rparr>)"

section \<open>Geometry loader: the join key\<close>

text \<open>
  Python's \<open>str.zfill\<close>, which \<open>Series.str.zfill\<close> applies to every element: a string
  shorter than the width gets zeros on the left, after a leading sign if it has one;
  a string that is long enough is returned as it is.
\<close>

definition zfill :: "nat \<Rightarrow> string \<Rightarrow> string" where
  "zfill width s =
     (if width \<le> length s then s
      else (case s of
              c # rest \<Rightarrow>
                if c = CHR ''+'' \<or> c = CHR ''-''
                then c # replicate (width - length s) CHR ''0'' @ rest
                else replicate (width - length s) CHR ''0'' @ s
            | [] \<Rightarrow> replicate width CHR ''0''))"

text \<open>
  \<open>gdf["STATEFP"] + gdf["COUNTYFP"]\<close> on text columns: element-wise concatenation,
  missing as soon as one side is missing.
\<close>

fun str_add :: "string option \<Rightarrow> string option \<Rightarrow> string option" where
  "str_add (Some a) (Some b) = Some (a @ b)"
| "str_add _ _ = None"

text \<open>\<open>.astype(str)\<close>: text stays, a missing value becomes the text \<open>nan\<close>.\<close>

fun astype_str :: "string option \<Rightarrow> string" where
  "astype_str (Some s) = s"
| "astype_str None = ''nan''"

text \<open>Line 34, for one row: \<open>(STATEFP + COUNTYFP).astype(str).str.zfill(5)\<close>.\<close>

definition geoid_of :: "string option \<Rightarrow> string option \<Rightarrow> string" where
  "geoid_of st co = zfill 5 (astype_str (str_add st co))"

text \<open>
  Lines 33-34 on the table read from the shapefile, whose attribute values are text or
  missing: the \<open>GEOID\<close> column is set (overwritten if the file has one) from the
  \<open>STATEFP\<close> and \<open>COUNTYFP\<close> columns; a missing column is a KeyError.
\<close>

definition load_geometry :: "string option frame \<Rightarrow> error + string option frame" where
  "load_geometry gdf =
     (case get_column gdf ''STATEFP'' of
        Inl e \<Rightarrow> Inl e
      | Inr sts \<Rightarrow>
          (case get_column gdf ''COUNTYFP'' of
             Inl e \<Rightarrow> Inl e
           | Inr cts \<Rightarrow>
               Inr (set_column gdf ''GEOID'' (map2 (\<lambda>s c. Some (geoid_of s c)) sts cts))))"

section \<open>Dataset loader\<close>

text \<open>Errors propagate as exceptions do: the first one ends the computation.\<close>

definition bind_err :: "error + 'a \<Rightarrow> ('a \<Rightarrow> error + 'b) \<Rightarrow> error + 'b" where
  "bind_err m f = (case m of Inl e \<Rightarrow> Inl e | Inr v \<Rightarrow> f v)"

fun collect :: "(error + 'a) list \<Rightarrow> error + 'a list" where
  "collect [] = Inr []"
| "collect (x # xs) = bind_err x (\<lambda>v. bind_err (collect xs) (\<lambda>vs. Inr (v # vs)))"

text \<open>The whitelist of lines 18-24.\<close>

definition numeric_cols :: "string list" where
  "numeric_cols =
     [''gdp'', ''population'', ''airport_count'',
      ''enplanements'', ''passengers'', ''departures'',
      ''arrivals'', ''freight'', ''mail'',
      ''Sustainable_Aviation_Fuels_degree_centrality'',
      ''SAF_FIRM_COUNT'']"

text \<open>
  \<open>pd.read_csv(..., dtype=str)\<close> yields text or missing cells only, so the file's
  content is a table of \<open>string option\<close>; \<open>read_cell\<close> embeds such a value into the
  cells of the loaded table.
\<close>

definition read_cell :: "string option \<Rightarrow> 'n cell" where
  "read_cell v = (case v of None \<Rightarrow> NA | Some s \<Rightarrow> Str s)"

definition read_table :: "string option frame \<Rightarrow> 'n cell frame" where
  "read_table raw = \<lparr>columns = columns raw, rws = map (map read_cell) (rws raw)\<rparr>"

text \<open>
  \<open>pd.to_numeric(..., errors="coerce")\<close> on one cell. How a text is read as a number
  is the library's business and is the parameter \<open>parse\<close>; a text that does not parse
  becomes missing.
\<close>

definition to_numeric :: "(string \<Rightarrow> 'n option) \<Rightarrow> 'n cell \<Rightarrow> 'n cell" where
  "to_numeric parse v =
     (case v of
        Str s \<Rightarrow> (case parse s of Some x \<Rightarrow> Num x | None \<Rightarrow> NA)
      | NA \<Rightarrow> NA
      | Num x \<Rightarrow> Num x)"

text \<open>The body of the loop of lines 25-27 for one whitelist entry.\<close>

definition coerce_col ::
  "(string \<Rightarrow> 'n option) \<Rightarrow> string \<Rightarrow> 'n cell frame \<Rightarrow> error + 'n cell frame" where
  "coerce_col parse col t =
     (if col \<in> set (columns t)
      then bind_err (get_column t col)
             (\<lambda>vs. Inr (set_column t col (map (to_numeric parse) vs)))
      else Inr t)"

text \<open>The loop itself, over any list of column names.\<close>

fun coerce_all ::
  "(string \<Rightarrow> 'n option) \<Rightarrow> string list \<Rightarrow> 'n cell frame \<Rightarrow> error + 'n cell frame" where
  "coerce_all parse [] t = Inr t"
| "coerce_all parse (col # cols) t = bind_err (coerce_col parse col t) (coerce_all parse cols)"

text \<open>
  \<open>+\<close> between a text column and a text (column): concatenation, missing when a side
  is missing; a numeric operand is a TypeError.
\<close>

fun text_add :: "'n cell \<Rightarrow> 'n cell \<Rightarrow> error + 'n cell" where
  "text_add (Str a) (Str b) = Inr (Str (a @ b))"
| "text_add (Num x) _ = Inl TypeError"
| "text_add _ (Num y) = Inl TypeError"
| "text_add _ _ = Inr NA"

text \<open>
  \<open>load_data\<close> (lines 14-36) on the contents of the two files. The result is the
  record table, the geometry table and the whitelist.
\<close>

definition load_data ::
  "(string \<Rightarrow> 'n option) \<Rightarrow> string option frame \<Rightarrow> string option frame
     \<Rightarrow> error + ('n cell frame \<times> 'n cell frame \<times> string list)" where
  "load_data parse csv shp =
     bind_err (coerce_all parse numeric_cols (read_table csv)) (\<lambda>t.
     bind_err (get_column t ''COUNTY_NAME'') (\<lambda>names.
     bind_err (collect (map (\<lambda>a. text_add a (Str '', '')) names)) (\<lambda>pre.
     bind_err (get_column t ''STATE_NAME'') (\<lambda>states.
     bind_err (collect (map2 text_add pre states)) (\<lambda>labels.
     bind_err (load_geometry shp) (\<lambda>g.
       Inr (set_column t ''county_state'' labels, read_table g, numeric_cols)))))))"

text \<open>
  Cell-wise update of the columns with given labels. \<open>map_cols\<close> is what the coercion
  loop amounts to on a table with distinct column labels (see \<open>coerce_all_eq\<close>).
\<close>

definition map_col :: "('c \<Rightarrow> 'c) \<Rightarrow> string \<Rightarrow> 'c frame \<Rightarrow> 'c frame" where
  "map_col f c t =
     t\<lparr>rws := map (\<lambda>r. map2 (\<lambda>d v. if d = c then f v else v) (columns t) r) (rws t)\<rparr>"

definition map_cols :: "('c \<Rightarrow> 'c) \<Rightarrow> string list \<Rightarrow> 'c frame \<Rightarrow> 'c frame" where
  "map_cols f cs t =
     t\<lparr>rws := map (\<lambda>r. map2 (\<lambda>d v. if d \<in> set cs then f v else v) (columns t) r) (rws t)\<rparr>"

text \<open>
  The display label that line 30 computes for a row whose name cells are text or
  missing (see \<open>load_data_eq\<close>).
\<close>

definition county_label :: "'n cell \<Rightarrow> 'n cell \<Rightarrow> 'n cell" where
  "county_label name state =
     (case name of
        Str a \<Rightarrow> (case state of Str b \<Rightarrow> Str (a @ '', '' @ b) | _ \<Rightarrow> NA)
      | _ \<Rightarrow> NA)"

definition is_num :: "'n cell \<Rightarrow> bool" where
  "is_num v = (case v of Num x \<Rightarrow> True | _ \<Rightarrow> False)"

section \<open>Ranking view\<close>

text \<open>The cell of row \<open>r\<close> under the label \<open>c\<close>, for a table with the given columns.\<close>

definition cell_at :: "string list \<Rightarrow> string \<Rightarrow> 'c list \<Rightarrow> 'c" where
  "cell_at cols c r = r ! col_index cols c"

definition is_text :: "'n cell \<Rightarrow> bool" where
  "is_text v = (case v of Str s \<Rightarrow> True | _ \<Rightarrow> False)"

text \<open>
  \<open>df.sort_values(by, ascending=False)\<close> with the defaults \<open>kind="quicksort"\<close> and
  \<open>na_position="last"\<close>, as pandas computes it for a single numeric column: the rows
  with a missing key are set aside in their original order; the remaining keys are
  reversed, handed to the array library's ascending \<open>argsort\<close>, and the resulting
  order is reversed again; the rows with a missing key are appended.

  The array library's \<open>argsort\<close> is the parameter: it maps a list of keys to the list
  of positions in sorted order.
\<close>

definition present_rows :: "'n cell list \<Rightarrow> 'a list \<Rightarrow> ('n \<times> 'a) list" where
  "present_rows ks rs =
     concat (map (\<lambda>(k, r). case k of Num v \<Rightarrow> [(v, r)] | _ \<Rightarrow> []) (zip ks rs))"

definition missing_rows :: "'n cell list \<Rightarrow> 'a list \<Rightarrow> 'a list" where
  "missing_rows ks rs = map snd (filter (\<lambda>(k, r). k = NA) (zip ks rs))"

definition sort_desc_na_last :: "('n list \<Rightarrow> nat list) \<Rightarrow> 'n cell list \<Rightarrow> 'a list \<Rightarrow> 'a list" where
  "sort_desc_na_last argsort ks rs =
     (let rp = rev (present_rows ks rs);
          ordered = map (\<lambda>i. rp ! i) (argsort (map fst rp))
      in map snd (rev ordered) @ missing_rows ks rs)"

definition sort_values ::
  "('n list \<Rightarrow> nat list) \<Rightarrow> 'n cell frame \<Rightarrow> string \<Rightarrow> error + 'n cell frame" where
  "sort_values argsort t by =
     bind_err (get_column t by) (\<lambda>ks.
       if list_ex is_text ks then Inl Unsupported
       else Inr (t\<lparr>rws := sort_desc_na_last argsort ks (rws t)\<rparr>))"

text \<open>\<open>.head(n)\<close> and the column selection \<open>df[[...]]\<close>.\<close>

definition head :: "nat \<Rightarrow> 'c frame \<Rightarrow> 'c frame" where
  "head n t = t\<lparr>rws := take n (rws t)\<rparr>"

definition select_cols :: "'c frame \<Rightarrow> string list \<Rightarrow> error + 'c frame" where
  "select_cols t cs =
     (case filter (\<lambda>c. c \<notin> set (columns t)) cs of
        m # ms \<Rightarrow> Inl (KeyError m)
      | [] \<Rightarrow> Inr \<lparr>columns = cs, rws = map (\<lambda>r. map (\<lambda>c. cell_at (columns t) c r) cs) (rws t)\<rparr>)"

text \<open>
  Lines 75-80 with the metric, the count and the displayed columns as parameters, and
  the table of the Overview tab, which fixes them.
\<close>

definition ranking_view ::
  "('n list \<Rightarrow> nat list) \<Rightarrow> 'n cell frame \<Rightarrow> string \<Rightarrow> nat \<Rightarrow> string list
     \<Rightarrow> error + 'n cell frame" where
  "ranking_view argsort t metric n shown =
     bind_err (sort_values argsort t metric) (\<lambda>s. select_cols (head n s) shown)"

definition hidden_champions :: "('n list \<Rightarrow> nat list) \<Rightarrow> 'n cell frame \<Rightarrow> error + 'n cell frame" where
  "hidden_champions argsort t =
     ranking_view argsort t ''Sustainable_Aviation_Fuels_degree_centrality'' 25
       [''county_state'', ''gdp'', ''population'', ''airport_count'',
        ''Sustainable_Aviation_Fuels_degree_centrality'', ''SAF_FIRM_COUNT'']"

text \<open>
  What the library promises of \<open>argsort\<close> whatever the \<open>kind\<close>: the result lists every
  position once and reads the keys in ascending order. A stable \<open>argsort\<close> is the one
  that lists equal keys by increasing position; \<open>kind="quicksort"\<close> is documented as
  not stable.
\<close>

definition argsort_ok :: "('n::linorder list \<Rightarrow> nat list) \<Rightarrow> bool" where
  "argsort_ok argsort =
     (\<forall>xs. mset (argsort xs) = mset [0..<length xs] \<and> sorted (map (\<lambda>i. xs ! i) (argsort xs)))"

definition stable_argsort :: "'n::linorder list \<Rightarrow> nat list" where
  "stable_argsort xs = sort_key (\<lambda>i. xs ! i) [0..<length xs]"

text \<open>
  The quicksort behind \<open>argsort(kind="quicksort")\<close>, as the array library's portable
  implementation computes it on the list \<open>t\<close> of positions for the keys \<open>v\<close>. A range
  \<open>lo..hi\<close> of more than 17 positions is partitioned: the first, middle and last
  position are put in the order of their keys, the middle one is the pivot and is
  parked at \<open>hi - 1\<close>, two scans move towards each other and exchange the positions they
  stop at (a scan stops at a key equal to the pivot), and the pivot is put between the
  two parts, which are then sorted in turn. A range of at most 17 positions is sorted
  by insertion. The library bounds the number of nested partitions (twice the binary
  logarithm of the length) and hands a range beyond the bound to heapsort; that part is
  not modelled: \<open>aquicksort\<close> is then \<open>None\<close> and \<open>numpy_argsort\<close> has no order to give.
  The fuel arguments only make the recursions structural; they are never used up.

  On processors for which the library selects a vectorised sort the positions of equal
  keys come out in another order; that sort is not stable either.
\<close>

definition swap_at :: "nat \<Rightarrow> nat \<Rightarrow> 'a list \<Rightarrow> 'a list" where
  "swap_at i j t = t[i := t ! j, j := t ! i]"

fun scan_up :: "nat \<Rightarrow> 'n::linorder list \<Rightarrow> 'n \<Rightarrow> nat list \<Rightarrow> nat \<Rightarrow> nat" where
  "scan_up 0 v vp t i = i"
| "scan_up (Suc fuel) v vp t i =
     (if v ! (t ! Suc i) < vp then scan_up fuel v vp t (Suc i) else Suc i)"

fun scan_down :: "nat \<Rightarrow> 'n::linorder list \<Rightarrow> 'n \<Rightarrow> nat list \<Rightarrow> nat \<Rightarrow> nat" where
  "scan_down 0 v vp t j = j"
| "scan_down (Suc fuel) v vp t j =
     (if vp < v ! (t ! (j - 1)) then scan_down fuel v vp t (j - 1) else j - 1)"

fun exchange ::
  "nat \<Rightarrow> 'n::linorder list \<Rightarrow> 'n \<Rightarrow> nat list \<Rightarrow> nat \<Rightarrow> nat \<Rightarrow> nat list \<times> nat" where
  "exchange 0 v vp t i j = (t, i)"
| "exchange (Suc fuel) v vp t i j =
     (let i' = scan_up (length t) v vp t i;
          j' = scan_down (length t) v vp t j
      in if j' \<le> i' then (t, i') else exchange fuel v vp (swap_at i' j' t) i' j')"

definition partition_step ::
  "'n::linorder list \<Rightarrow> nat list \<Rightarrow> nat \<Rightarrow> nat \<Rightarrow> nat list \<times> nat" where
  "partition_step v t lo hi =
     (let mid = lo + (hi - lo) div 2;
          t1 = (if v ! (t ! mid) < v ! (t ! lo) then swap_at mid lo t else t);
          t2 = (if v ! (t1 ! hi) < v ! (t1 ! mid) then swap_at hi mid t1 else t1);
          t3 = (if v ! (t2 ! mid) < v ! (t2 ! lo) then swap_at mid lo t2 else t2);
          vp = v ! (t3 ! mid);
          t4 = swap_at mid (hi - 1) t3;
          (t5, i) = exchange (length t) v vp t4 lo (hi - 1)
      in (swap_at i (hi - 1) t5, i))"

text \<open>
  Insertion of the position \<open>vi\<close> into the sorted positions before it, which are given
  last first: it moves past the positions whose key is larger, and stops at an equal one.
\<close>

fun insert_back :: "'n::linorder list \<Rightarrow> nat \<Rightarrow> nat list \<Rightarrow> nat list" where
  "insert_back v vi [] = [vi]"
| "insert_back v vi (k # ks) =
     (if v ! vi < v ! k then k # insert_back v vi ks else vi # k # ks)"

definition insertion_sort :: "'n::linorder list \<Rightarrow> nat list \<Rightarrow> nat \<Rightarrow> nat \<Rightarrow> nat list" where
  "insertion_sort v t lo hi =
     take lo t @
     rev (foldl (\<lambda>acc vi. insert_back v vi acc) [] (take (Suc hi - lo) (drop lo t))) @
     drop (Suc hi) t"

fun aquicksort ::
  "nat \<Rightarrow> nat \<Rightarrow> 'n::linorder list \<Rightarrow> nat list \<Rightarrow> nat \<Rightarrow> nat \<Rightarrow> nat list option" where
  "aquicksort 0 cdepth v t lo hi = None"
| "aquicksort (Suc fuel) cdepth v t lo hi =
     (if 16 < hi - lo
      then (if cdepth = 0 then None
            else (case partition_step v t lo hi of
                    (t', i) \<Rightarrow>
                      (case aquicksort fuel (cdepth - 1) v t' lo (i - 1) of
                         None \<Rightarrow> None
                       | Some t'' \<Rightarrow> aquicksort fuel (cdepth - 1) v t'' (Suc i) hi)))
      else Some (insertion_sort v t lo hi))"

fun msb :: "nat \<Rightarrow> nat" where
  "msb n = (if n < 2 then 0 else Suc (msb (n div 2)))"

definition numpy_argsort :: "'n::linorder list \<Rightarrow> nat list" where
  "numpy_argsort xs =
     (case aquicksort (Suc (length xs)) (2 * msb (length xs)) xs [0..<length xs] 0
             (length xs - 1) of
        Some t \<Rightarrow> t
      | None \<Rightarrow> [])"

text \<open>
  The rows with a present key, in the order \<open>sort_desc_na_last\<close> gives them.
\<close>

definition ranked_present :: "('n list \<Rightarrow> nat list) \<Rightarrow> 'n cell list \<Rightarrow> 'a list \<Rightarrow> 'a list" where
  "ranked_present argsort ks rs =
     (let rp = rev (present_rows ks rs)
      in map snd (rev (map (\<lambda>i. rp ! i) (argsort (map fst rp)))))"

text \<open>
  The order of a descending ranking on key cells: a number ranks before a number that
  is not larger, and everything ranks before a missing key.
\<close>

definition ranks_before :: "'n::linorder cell \<Rightarrow> 'n cell \<Rightarrow> bool" where
  "ranks_before a b =
     (case b of
        NA \<Rightarrow> True
      | Num y \<Rightarrow> (case a of Num x \<Rightarrow> y \<le> x | _ \<Rightarrow> False)
      | Str s \<Rightarrow> False)"

section \<open>Analysis view\<close>

text \<open>\<open>.dropna()\<close>: the rows without any missing cell.\<close>

definition dropna :: "'n cell frame \<Rightarrow> 'n cell frame" where
  "dropna t = t\<lparr>rws := filter (\<lambda>r. NA \<notin> set r) (rws t)\<rparr>"

text \<open>Line 103.\<close>

definition plot_df :: "'n cell frame \<Rightarrow> string \<Rightarrow> string \<Rightarrow> error + 'n cell frame" where
  "plot_df t x_col y_col =
     bind_err (select_cols t [x_col, y_col, ''county_state'']) (\<lambda>p. Inr (dropna p))"

text \<open>
  The regression of lines 106-108 in exact arithmetic, for two different metrics
  (with the same metric on both axes the selected table has a repeated label and the
  operands of the fit are no longer single columns; the model leaves that case out).

  \<open>sm.add_constant\<close> (default \<open>has_constant="skip"\<close>) prepends a column of ones named
  \<open>const\<close>, unless the data already has a constant non-zero column, in which case it
  returns the data as it is. \<open>sm.OLS(...).fit()\<close> returns the least-squares
  coefficients with the least norm (it solves by pseudo-inverse), one per column of the
  design, and raises ValueError on a design without rows. The design here has one or
  two columns, for which the coefficients are written out.
\<close>

fun num_of :: "'n cell \<Rightarrow> error + 'n" where
  "num_of (Num v) = Inr v"
| "num_of (Str s) = Inl Unsupported"
| "num_of NA = Inl Unsupported"

definition add_constant :: "string \<Rightarrow> 'n::linordered_field list \<Rightarrow> (string \<times> 'n list) list" where
  "add_constant name xs =
     (if xs \<noteq> [] \<and> list_all (\<lambda>v. v = hd xs) xs \<and> hd xs \<noteq> 0
      then [(name, xs)]
      else [(''const'', replicate (length xs) 1), (name, xs)])"

definition mean :: "'n::linordered_field list \<Rightarrow> 'n" where
  "mean xs = sum_list xs / of_nat (length xs)"

definition ols_fit ::
  "(string \<times> 'n::linordered_field list) list \<Rightarrow> 'n list \<Rightarrow> error + (string \<times> 'n) list" where
  "ols_fit design ys =
     (if ys = [] then Inl ValueError
      else (case design of
              [(name, xs)] \<Rightarrow>
                Inr [(name, sum_list (map2 (*) xs ys) / sum_list (map2 (*) xs xs))]
            | [(cname, ones), (name, xs)] \<Rightarrow>
                (let sxx = sum_list (map (\<lambda>x. (x - mean xs) * (x - mean xs)) xs);
                     sxy = sum_list (map2 (\<lambda>x y. (x - mean xs) * (y - mean ys)) xs ys)
                 in if sxx = 0
                    then Inr [(cname, mean ys / (1 + mean xs * mean xs)),
                              (name, mean xs * mean ys / (1 + mean xs * mean xs))]
                    else Inr [(cname, mean ys - sxy / sxx * mean xs), (name, sxy / sxx)])
            | _ \<Rightarrow> Inl Unsupported))"

text \<open>
  What the Scatterplot tab writes under the chart (lines 108, 121-122): the slope line
  with the coefficient of the X column, or nothing when the fit has no such coefficient
  (or a NaN one, which does not arise in exact arithmetic). The display rounds to four
  decimals; the model keeps the exact value. The chart itself is left out.
\<close>

datatype 'n slope_line = SlopeShown 'n | NoSlopeLine

definition scatter_slope ::
  "'n::linordered_field cell frame \<Rightarrow> string \<Rightarrow> string \<Rightarrow> error + 'n slope_line" where
  "scatter_slope t x_col y_col =
     (if x_col = y_col then Inl Unsupported else
     bind_err (plot_df t x_col y_col) (\<lambda>p.
     bind_err (get_column p x_col) (\<lambda>xcells.
     bind_err (collect (map num_of xcells)) (\<lambda>xs.
     bind_err (get_column p y_col) (\<lambda>ycells.
     bind_err (collect (map num_of ycells)) (\<lambda>ys.
     bind_err (ols_fit (add_constant x_col xs) ys) (\<lambda>params.
       Inr (case map_of params x_col of
              Some slope \<Rightarrow> SlopeShown slope
            | None \<Rightarrow> NoSlopeLine))))))))"

section \<open>Choropleth tab: metric catalog and Joiner\<close>

text \<open>The dictionary of lines 137-151, in its order.\<close>

definition metric_options :: "(string \<times> string) list" where
  "metric_options =
     [(''Sustainable_Aviation_Fuels_degree_centrality'', ''SAF Centrality''),
      (''gdp'', ''GDP''),
      (''population'', ''Population''),
      (''airport_count'', ''Airport Count''),
      (''enplanements'', ''Enplanements''),
      (''passengers'', ''Passengers''),
      (''departures'', ''Departures''),
      (''arrivals'', ''Arrivals''),
      (''freight'', ''Freight''),
      (''mail'', ''Mail''),
      (''biomass'', ''Biomass (Coming Soon)''),
      (''ccs'', ''CCS (Coming Soon)''),
      (''hydrogen'', ''Hydrogen (Coming Soon)'')]"

text \<open>Python's \<open>sub in s\<close> on strings.\<close>

fun starts_with :: "string \<Rightarrow> string \<Rightarrow> bool" where
  "starts_with [] s = True"
| "starts_with (a # sub) [] = False"
| "starts_with (a # sub) (b # s) = (a = b \<and> starts_with sub s)"

fun contains :: "string \<Rightarrow> string \<Rightarrow> bool" where
  "contains sub [] = starts_with sub []"
| "contains sub (b # s) = (starts_with sub (b # s) \<or> contains sub s)"

text \<open>
  \<open>left.merge(right, on=key, how="left")\<close>. Every left row is kept, in order; it is
  paired with each right row carrying the same key, in the right table's order, or,
  when there is none, with missing cells. The key column appears once; any other label
  the two tables share gets the suffix \<open>_x\<close> on the left and \<open>_y\<close> on the right.
\<close>

definition drop_key :: "string list \<Rightarrow> string \<Rightarrow> 'c list \<Rightarrow> 'c list" where
  "drop_key cols key r = map snd (filter (\<lambda>(c, v). c \<noteq> key) (zip cols r))"

definition merged_columns :: "string list \<Rightarrow> string list \<Rightarrow> string \<Rightarrow> string list" where
  "merged_columns lcols rcols key =
     map (\<lambda>c. if c \<noteq> key \<and> c \<in> set rcols then c @ ''_x'' else c) lcols @
     map (\<lambda>c. if c \<in> set lcols then c @ ''_y'' else c) (filter (\<lambda>c. c \<noteq> key) rcols)"

definition merge_left ::
  "'n cell frame \<Rightarrow> 'n cell frame \<Rightarrow> string \<Rightarrow> error + 'n cell frame" where
  "merge_left left right key =
     (if key \<notin> set (columns left) \<or> key \<notin> set (columns right) then Inl (KeyError key)
      else Inr \<lparr>columns = merged_columns (columns left) (columns right) key,
                rws = concat (map (\<lambda>g.
                  (case filter (\<lambda>r. cell_at (columns right) key r = cell_at (columns left) key g)
                          (rws right) of
                     [] \<Rightarrow> [g @ replicate (length (filter (\<lambda>c. c \<noteq> key) (columns right))) NA]
                   | ms \<Rightarrow> map (\<lambda>r. g @ drop_key (columns right) key r) ms))
                  (rws left))\<rparr>)"

text \<open>\<open>.dropna(subset=[c])\<close>.\<close>

definition dropna_subset :: "'n cell frame \<Rightarrow> string \<Rightarrow> error + 'n cell frame" where
  "dropna_subset t c =
     (if c \<in> set (columns t)
      then Inr (t\<lparr>rws := filter (\<lambda>r. cell_at (columns t) c r \<noteq> NA) (rws t)\<rparr>)
      else Inl (KeyError c))"

text \<open>The Joiner, line 159.\<close>

definition joiner ::
  "'n cell frame \<Rightarrow> 'n cell frame \<Rightarrow> string \<Rightarrow> error + 'n cell frame" where
  "joiner geo recs selected_key =
     bind_err (merge_left geo recs ''GEOID'') (\<lambda>m. dropna_subset m selected_key)"

text \<open>
  The script's variables that the Choropleth tab reads or assigns, and what it puts on
  the page: the info box of line 157, or the map drawn from \<open>merged\<close> and coloured by
  the selected metric, followed by the closing note.
\<close>

datatype 'n element = Info string | ChoroplethMap "'n cell frame" string | Interpretation

record 'n script_state =
  s_df :: "'n cell frame"
  s_gdf :: "'n cell frame"
  s_merged :: "'n cell frame option"
  s_page :: "'n element list"

text \<open>
  The chart call of lines 161-188. The keys of \<open>hover_data\<close>, the \<open>hover_name\<close> and the
  \<open>color\<close> must all name columns of the table handed over; the charting library raises
  ValueError otherwise. What it draws is kept as the table and the colouring metric;
  the serialisation of the table for the \<open>geojson\<close> argument is left out.
\<close>

definition hover_data :: "string list" where
  "hover_data =
     [''county_state'', ''gdp'', ''population'', ''airport_count'',
      ''Sustainable_Aviation_Fuels_degree_centrality'',
      ''departures'', ''arrivals'', ''passengers'', ''enplanements'',
      ''freight'', ''mail'']"

definition choropleth_mapbox :: "'n cell frame \<Rightarrow> string \<Rightarrow> error + 'n element" where
  "choropleth_mapbox merged color =
     (if list_all (\<lambda>c. c \<in> set (columns merged)) (color # ''county_state'' # hover_data)
      then Inr (ChoroplethMap merged color)
      else Inl ValueError)"

text \<open>Lines 153-197 for a selected key.\<close>

definition choropleth_tab :: "string \<Rightarrow> 'n script_state \<Rightarrow> error + 'n script_state" where
  "choropleth_tab selected_key s =
     (case map_of metric_options selected_key of
        None \<Rightarrow> Inl (KeyError selected_key)
      | Some label \<Rightarrow>
          if contains ''Coming Soon'' label
          then Inr (s\<lparr>s_page := s_page s @
                 [Info (label @ '' not available yet. This demo shows SAF, but the tool is generalizable to all climate techs.'')]\<rparr>)
          else bind_err (joiner (s_gdf s) (s_df s) selected_key) (\<lambda>merged.
               bind_err (choropleth_mapbox merged selected_key) (\<lambda>fig.
                 Inr (s\<lparr>s_merged := Some merged,
                        s_page := s_page s @ [fig, Interpretation]\<rparr>))))"

section \<open>The Joiner on table objects\<close>

text \<open>
  In the program a table is an object and a variable holds a reference to it, so
  whether line 159 changes \<open>gdf\<close> or \<open>df\<close> is a question about objects. The store lists
  the table objects; a reference is a position in it. \<open>DataFrame.merge\<close> reads its two
  operands and returns a new table; \<open>DataFrame.dropna\<close>, called as on line 159 without
  \<open>inplace=True\<close>, reads its operand and returns a new table. Line 159 is the one after
  the other, on the references held by \<open>gdf\<close> and \<open>df\<close>; its value is the reference that
  \<open>merged\<close> is bound to.
\<close>

definition frame_merge ::
  "'n cell frame list \<Rightarrow> nat \<Rightarrow> nat \<Rightarrow> string \<Rightarrow> error + 'n cell frame list \<times> nat" where
  "frame_merge store left right key =
     bind_err (merge_left (store ! left) (store ! right) key)
       (\<lambda>m. Inr (store @ [m], length store))"

definition frame_dropna ::
  "'n cell frame list \<Rightarrow> nat \<Rightarrow> string \<Rightarrow> error + 'n cell frame list \<times> nat" where
  "frame_dropna store ref c =
     bind_err (dropna_subset (store ! ref) c)
       (\<lambda>d. Inr (store @ [d], length store))"

definition joiner_statement ::
  "string \<Rightarrow> 'n cell frame list \<Rightarrow> nat \<Rightarrow> nat \<Rightarrow> error + 'n cell frame list \<times> nat" where
  "joiner_statement selected_key store gdf df =
     bind_err (frame_merge store gdf df ''GEOID'')
       (\<lambda>(store1, m). frame_dropna store1 m selected_key)"

section \<open>The Joiner as the specification words it\<close>

text \<open>
  A left join of geometries to records on the identifier: every geometry row is kept
  and is paired with each record carrying its identifier, or with no record when there
  is none. The metric of a pair is the record's value for the key, and is missing when
  there is no record. The Joiner's result, in these words, keeps the pairs whose
  metric is present. \<open>joined_row\<close> lays a pair out as a row of the merged table: the
  geometry's cells, then the record's cells but the identifier, or missing cells.
\<close>

definition left_join ::
  "'n cell frame \<Rightarrow> 'n cell frame \<Rightarrow> ('n cell list \<times> 'n cell list option) list" where
  "left_join geo recs =
     concat (map (\<lambda>g.
       (case filter (\<lambda>r. cell_at (columns recs) ''GEOID'' r = cell_at (columns geo) ''GEOID'' g)
               (rws recs) of
          [] \<Rightarrow> [(g, None)]
        | ms \<Rightarrow> map (\<lambda>r. (g, Some r)) ms))
       (rws geo))"

definition metric_of :: "'n cell frame \<Rightarrow> string \<Rightarrow> 'n cell list \<times> 'n cell list option \<Rightarrow> 'n cell" where
  "metric_of recs key p = (case snd p of None \<Rightarrow> NA | Some r \<Rightarrow> cell_at (columns recs) key r)"

definition joined_pairs ::
  "'n cell frame \<Rightarrow> 'n cell frame \<Rightarrow> string \<Rightarrow> ('n cell list \<times> 'n cell list option) list" where
  "joined_pairs geo recs key = filter (\<lambda>p. metric_of recs key p \<noteq> NA) (left_join geo recs)"

definition joined_row :: "'n cell frame \<Rightarrow> 'n cell list \<times> 'n cell list option \<Rightarrow> 'n cell list" where
  "joined_row recs p =
     fst p @ (case snd p of
                None \<Rightarrow> replicate (length (filter (\<lambda>c. c \<noteq> ''GEOID'') (columns recs))) NA
              | Some r \<Rightarrow> drop_key (columns recs) ''GEOID'' r)"

section \<open>Sample data\<close>

text \<open>
  A small CSV content and shapefile content used to run the definitions: three counties,
  the second without a county name, the third without a centrality score; and a reader
  of the numbers that occur in it.
\<close>

definition sample_parse :: "string \<Rightarrow> int option" where
  "sample_parse = map_of [(''10'', 10), (''20'', 20), (''30'', 30), (''5'', 5), (''15'', 15)]"

definition sample_csv :: "string option frame" where
  "sample_csv =
     \<lparr>columns = [''GEOID'', ''COUNTY_NAME'', ''STATE_NAME'', ''gdp'',
                 ''Sustainable_Aviation_Fuels_degree_centrality''],
      rws = [[Some ''01001'', Some ''Autauga'', Some ''Alabama'', Some ''10'', Some ''5''],
             [Some ''01003'', None, Some ''Alabama'', Some ''20'', Some ''15''],
             [Some ''01005'', Some ''Barbour'', Some ''Alabama'', Some ''30'', None]]\<rparr>"

definition sample_shp :: "string option frame" where
  "sample_shp =
     \<lparr>columns = [''STATEFP'', ''COUNTYFP'', ''STATE_NAME'', ''geometry''],
      rws = [[Some ''01'', Some ''001'', Some ''Alabama'', Some ''POLYGON A''],
             [Some ''01'', Some ''003'', Some ''Alabama'', Some ''POLYGON B''],
             [Some ''01'', Some ''005'', Some ''Alabama'', Some ''POLYGON C''],
             [Some ''01'', Some ''007'', Some ''Alabama'', Some ''POLYGON D'']]\<rparr>"

text \<open>The tables \<open>load_data\<close> returns for them (see \<open>load_sample\<close>).\<close>

definition sample_df :: "int cell frame" where
  "sample_df =
     \<lparr>columns = [''GEOID'', ''COUNTY_NAME'', ''STATE_NAME'', ''gdp'',
                 ''Sustainable_Aviation_Fuels_degree_centrality'', ''county_state''],
      rws = [[Str ''01001'', Str ''Autauga'', Str ''Alabama'', Num 10, Num 5,
                Str ''Autauga, Alabama''],
             [Str ''01003'', NA, Str ''Alabama'', Num 20, Num 15, NA],
             [Str ''01005'', Str ''Barbour'', Str ''Alabama'', Num 30, NA,
                Str ''Barbour, Alabama'']]\<rparr>"

definition sample_gdf :: "int cell frame" where
  "sample_gdf =
     \<lparr>columns = [''STATEFP'', ''COUNTYFP'', ''STATE_NAME'', ''geometry'', ''GEOID''],
      rws = [[Str ''01'', Str ''001'', Str ''Alabama'', Str ''POLYGON A'', Str ''01001''],
             [Str ''01'', Str ''003'', Str ''Alabama'', Str ''POLYGON B'', Str ''01003''],
             [Str ''01'', Str ''005'', Str ''Alabama'', Str ''POLYGON C'', Str ''01005''],
             [Str ''01'', Str ''007'', Str ''Alabama'', Str ''POLYGON D'', Str ''01007'']]\<rparr>"

text \<open>The map table the Joiner returns for them and the metric \<open>gdp\<close>.\<close>

definition sample_joined :: "int cell frame" where
  "sample_joined =
     \<lparr>columns = [''STATEFP'', ''COUNTYFP'', ''STATE_NAME_x'', ''geometry'', ''GEOID'',
                 ''COUNTY_NAME'', ''STATE_NAME_y'', ''gdp'',
                 ''Sustainable_Aviation_Fuels_degree_centrality'', ''county_state''],
      rws = [[Str ''01'', Str ''001'', Str ''Alabama'', Str ''POLYGON A'', Str ''01001'',
                Str ''Autauga'', Str ''Alabama'', Num 10, Num 5, Str ''Autauga, Alabama''],
             [Str ''01'', Str ''003'', Str ''Alabama'', Str ''POLYGON B'', Str ''01003'',
                NA, Str ''Alabama'', Num 20, Num 15, NA],
             [Str ''01'', Str ''005'', Str ''Alabama'', Str ''POLYGON C'', Str ''01005'',
                Str ''Barbour'', Str ''Alabama'', Num 30, NA, Str ''Barbour, Alabama'']]\<rparr>"

definition sample_state :: "int script_state" where
  "sample_state = \<lparr>s_df = sample_df, s_gdf = sample_gdf, s_merged = None, s_page = []\<rparr>"

text \<open>The table that the merge of line 159 returns for them, before any row is dropped.\<close>

definition sample_merged :: "int cell frame" where
  "sample_merged =
     \<lparr>columns = [''STATEFP'', ''COUNTYFP'', ''STATE_NAME_x'', ''geometry'', ''GEOID'',
                 ''COUNTY_NAME'', ''STATE_NAME_y'', ''gdp'',
                 ''Sustainable_Aviation_Fuels_degree_centrality'', ''county_state''],
      rws = [[Str ''01'', Str ''001'', Str ''Alabama'', Str ''POLYGON A'', Str ''01001'',
                Str ''Autauga'', Str ''Alabama'', Num 10, Num 5, Str ''Autauga, Alabama''],
             [Str ''01'', Str ''003'', Str ''Alabama'', Str ''POLYGON B'', Str ''01003'',
                NA, Str ''Alabama'', Num 20, Num 15, NA],
             [Str ''01'', Str ''005'', Str ''Alabama'', Str ''POLYGON C'', Str ''01005'',
                Str ''Barbour'', Str ''Alabama'', Num 30, NA, Str ''Barbour, Alabama''],
             [Str ''01'', Str ''007'', Str ''Alabama'', Str ''POLYGON D'', Str ''01007'',
                NA, NA, NA, NA, NA]]\<rparr>"

text \<open>
  A loaded record table with every column the dashboard names, for two of the four
  sample geometries, the second without a GDP; the map table for the metric \<open>gdp\<close>; and
  the script state with it.
\<close>

definition county_df :: "int cell frame" where
  "county_df =
     \<lparr>columns = [''GEOID'', ''COUNTY_NAME'', ''STATE_NAME'', ''gdp'', ''population'',
                 ''airport_count'', ''enplanements'', ''passengers'', ''departures'',
                 ''arrivals'', ''freight'', ''mail'',
                 ''Sustainable_Aviation_Fuels_degree_centrality'', ''SAF_FIRM_COUNT'',
                 ''county_state''],
      rws = [[Str ''01001'', Str ''Autauga'', Str ''Alabama'', Num 10, Num 100,
                Num 1, Num 2, Num 3, Num 4, Num 5, Num 6, Num 7, Num 5, Num 1,
                Str ''Autauga, Alabama''],
             [Str ''01003'', Str ''Baldwin'', Str ''Alabama'', NA, Num 200,
                Num 2, Num 3, Num 4, Num 5, Num 6, Num 7, Num 8, Num 15, Num 0,
                Str ''Baldwin, Alabama'']]\<rparr>"

definition county_joined :: "int cell frame" where
  "county_joined =
     \<lparr>columns = [''STATEFP'', ''COUNTYFP'', ''STATE_NAME_x'', ''geometry'', ''GEOID'',
                 ''COUNTY_NAME'', ''STATE_NAME_y'', ''gdp'', ''population'',
                 ''airport_count'', ''enplanements'', ''passengers'', ''departures'',
                 ''arrivals'', ''freight'', ''mail'',
                 ''Sustainable_Aviation_Fuels_degree_centrality'', ''SAF_FIRM_COUNT'',
                 ''county_state''],
      rws = [[Str ''01'', Str ''001'', Str ''Alabama'', Str ''POLYGON A'', Str ''01001'',
                Str ''Autauga'', Str ''Alabama'', Num 10, Num 100,
                Num 1, Num 2, Num 3, Num 4, Num 5, Num 6, Num 7, Num 5, Num 1,
                Str ''Autauga, Alabama'']]\<rparr>"

definition county_session :: "int script_state" where
  "county_session = \<lparr>s_df = county_df, s_gdf = sample_gdf, s_merged = None, s_page = []\<rparr>"

text \<open>
  A loaded table of 24 counties, labelled A to X, whose centrality scores take four
  values, six counties each.
\<close>

definition tie_keys :: "int list" where
  "tie_keys = [3, 1, 4, 1, 2, 4, 2, 3, 1, 3, 4, 2, 2, 1, 3, 4, 1, 2, 3, 4, 4, 3, 2, 1]"

definition sample_many_ties :: "int cell frame" where
  "sample_many_ties =
     \<lparr>columns = [''county_state'', ''gdp'', ''population'', ''airport_count'',
                 ''Sustainable_Aviation_Fuels_degree_centrality'', ''SAF_FIRM_COUNT''],
      rws = map2 (\<lambda>c k. [Str [c], Num 0, Num 0, Num 0, Num k, Num 0])
              ''ABCDEFGHIJKLMNOPQRSTUVWX'' tie_keys\<rparr>"

text \<open>
  A loaded table with a tie: the counties A and B have the same centrality score, C has
  a higher one and D has none.
\<close>

definition sample_ties :: "int cell frame" where
  "sample_ties =
     \<lparr>columns = [''county_state'', ''gdp'', ''population'', ''airport_count'',
                 ''Sustainable_Aviation_Fuels_degree_centrality'', ''SAF_FIRM_COUNT''],
      rws = [[Str ''A, Alabama'', Num 10, Num 100, Num 1, Num 5, Num 0],
             [Str ''D, Alabama'', Num 40, Num 400, Num 4, NA, Num 0],
             [Str ''B, Alabama'', Num 20, Num 200, Num 2, Num 5, Num 1],
             [Str ''C, Alabama'', Num 30, Num 300, Num 3, Num 7, Num 2]]\<rparr>"

text \<open>
  Loaded tables for the Scatterplot tab, with exact numbers: one with a single row
  holding GDP, centrality and label together; one whose GDP is the same in every row;
  one without any such row.
\<close>

definition sample_one_row :: "rat cell frame" where
  "sample_one_row =
     \<lparr>columns = [''county_state'', ''gdp'', ''Sustainable_Aviation_Fuels_degree_centrality''],
      rws = [[Str ''A, Alabama'', Num 10, Num 5],
             [Str ''B, Alabama'', Num 20, NA]]\<rparr>"

definition sample_constant_x :: "rat cell frame" where
  "sample_constant_x =
     \<lparr>columns = [''county_state'', ''gdp'', ''Sustainable_Aviation_Fuels_degree_centrality''],
      rws = [[Str ''A, Alabama'', Num 2, Num 1],
             [Str ''B, Alabama'', Num 2, Num 3]]\<rparr>"

definition sample_no_row :: "rat cell frame" where
  "sample_no_row =
     \<lparr>columns = [''county_state'', ''gdp'', ''Sustainable_Aviation_Fuels_degree_centrality''],
      rws = [[Str ''A, Alabama'', NA, Num 5],
             [Str ''B, Alabama'', Num 20, NA]]\<rparr>"

section \<open>Basic facts about tables\<close>

lemma col_index_less: "c \<in> set cols \<Longrightarrow> col_index cols c < length cols"
  unfolding col_index_def by (induction cols) auto

lemma col_index_nth: "c \<in> set cols \<Longrightarrow> cols ! col_index cols c = c"
  unfolding col_index_def by (induction cols) auto

lemma col_index_append_new: "c \<notin> set cols \<Longrightarrow> col_index (cols @ [c]) c = length cols"
  unfolding col_index_def by (induction cols) auto

lemma col_index_unique:
  "distinct cols \<Longrightarrow> j < length cols \<Longrightarrow> cols ! j = c \<Longrightarrow> col_index cols c = j"
  using col_index_less[of c cols] col_index_nth[of c cols]
    nth_eq_iff_index_eq[of cols "col_index cols c" j]
  by auto

lemma wf_frame_row: "wf_frame t \<Longrightarrow> r \<in> set (rws t) \<Longrightarrow> length r = length (columns t)"
  unfolding wf_frame_def by (simp add: list_all_iff)

lemma map2_same: "map2 f (map g xs) (map h xs) = map (\<lambda>x. f (g x) (h x)) xs"
  by (induction xs) auto

lemma map2_id_left: "map2 f xs (map h xs) = map (\<lambda>x. f x (h x)) xs"
  using map2_same[of f "\<lambda>x. x" xs h] by simp

lemma get_set_column:
  assumes "wf_frame t" and "length vs = length (rws t)"
  shows "get_column (set_column t c vs) c = Inr vs"
proof (cases "c \<in> set (columns t)")
  case True
  have "map (\<lambda>r. r ! col_index (columns t) c)
          (map2 (\<lambda>r v. map2 (\<lambda>d old. if d = c then v else old) (columns t) r) (rws t) vs) = vs"
  proof (rule nth_equalityI, goal_cases)
    case 1
    show ?case using assms(2) by simp
  next
    case (2 i)
    then have i: "i < length (rws t)" by simp
    then have len: "length (rws t ! i) = length (columns t)"
      using assms(1) wf_frame_row by force
    show ?case
      using i assms(2) len col_index_less[OF True] col_index_nth[OF True] by simp
  qed
  with True show ?thesis by (simp add: get_column_def set_column_def)
next
  case False
  have "map (\<lambda>r. r ! col_index (columns t @ [c]) c) (map2 (\<lambda>r v. r @ [v]) (rws t) vs) = vs"
  proof (rule nth_equalityI, goal_cases)
    case 1
    show ?case using assms(2) by simp
  next
    case (2 i)
    then have i: "i < length (rws t)" by simp
    then have len: "length (rws t ! i) = length (columns t)"
      using assms(1) wf_frame_row by force
    show ?case
      using i assms(2) len col_index_append_new[OF False] by (simp add: nth_append)
  qed
  with False show ?thesis by (simp add: get_column_def set_column_def)
qed

lemma get_column_InrD:
  "get_column t c = Inr vs \<Longrightarrow>
     c \<in> set (columns t) \<and> vs = map (cell_at (columns t) c) (rws t)"
  by (auto simp: get_column_def cell_at_def split: if_splits)

section \<open>The join key\<close>

lemma length_zfill: "length (zfill w s) = max w (length s)"
  by (auto simp: zfill_def split: list.splits)

lemma zfill_long: "w \<le> length s \<Longrightarrow> zfill w s = s"
  by (simp add: zfill_def)

lemma geoid_column:
  assumes wf: "wf_frame shp" and ok: "load_geometry shp = Inr g"
  shows "map (cell_at (columns g) ''GEOID'') (rws g) =
         map (\<lambda>r. Some (geoid_of (cell_at (columns shp) ''STATEFP'' r)
                                  (cell_at (columns shp) ''COUNTYFP'' r))) (rws shp)"
proof -
  obtain sts cts where sts: "get_column shp ''STATEFP'' = Inr sts"
    and cts: "get_column shp ''COUNTYFP'' = Inr cts"
    and g: "g = set_column shp ''GEOID'' (map2 (\<lambda>s c. Some (geoid_of s c)) sts cts)"
    using ok by (auto simp: load_geometry_def split: sum.splits)
  have s: "sts = map (cell_at (columns shp) ''STATEFP'') (rws shp)"
    and c: "cts = map (cell_at (columns shp) ''COUNTYFP'') (rws shp)"
    using get_column_InrD[OF sts] get_column_InrD[OF cts] by simp_all
  have "get_column g ''GEOID'' = Inr (map2 (\<lambda>s c. Some (geoid_of s c)) sts cts)"
    unfolding g by (rule get_set_column[OF wf]) (simp add: s c)
  from get_column_InrD[OF this] show ?thesis
    by (simp add: s c map2_same)
qed

text \<open>
  C1 (amended). For every geometry row with a state code \<open>st\<close> and a county code \<open>co\<close>,
  the join key is the concatenation \<open>st @ co\<close> left-padded with zeros, as a whole, to
  the total width 5: its length is the larger of 5 and the length of the concatenation.
  It is the state code padded to 2 followed by the county code padded to 3, of length
  exactly 5, when the state code has 2 characters and the county code 3.
\<close>

theorem geoid_join_key:
  assumes "wf_frame shp" and "load_geometry shp = Inr g" and "i < length (rws shp)"
    and "cell_at (columns shp) ''STATEFP'' (rws shp ! i) = Some st"
    and "cell_at (columns shp) ''COUNTYFP'' (rws shp ! i) = Some co"
  shows "cell_at (columns g) ''GEOID'' (rws g ! i) = Some (zfill 5 (st @ co)) \<and>
         length (zfill 5 (st @ co)) = max 5 (length st + length co) \<and>
         (length st = 2 \<and> length co = 3 \<longrightarrow>
            zfill 5 (st @ co) = zfill 2 st @ zfill 3 co \<and> length (zfill 5 (st @ co)) = 5)"
proof -
  have col: "map (cell_at (columns g) ''GEOID'') (rws g) =
         map (\<lambda>r. Some (geoid_of (cell_at (columns shp) ''STATEFP'' r)
                                  (cell_at (columns shp) ''COUNTYFP'' r))) (rws shp)"
    by (rule geoid_column[OF assms(1,2)])
  then have len: "length (rws g) = length (rws shp)"
    using map_eq_imp_length_eq by blast
  have "map (cell_at (columns g) ''GEOID'') (rws g) ! i = Some (geoid_of (Some st) (Some co))"
    unfolding col using assms(3,4,5) by simp
  then have key: "cell_at (columns g) ''GEOID'' (rws g ! i) = Some (zfill 5 (st @ co))"
    using assms(3) len by (simp add: geoid_of_def)
  show ?thesis using key by (simp add: length_zfill zfill_long)
qed

theorem geoid_join_key_witness:
  "cell_at [''STATEFP'', ''COUNTYFP'', ''geometry'', ''GEOID'']
       ''GEOID'' [Some ''01'', Some ''001'', Some ''POLYGON'', Some ''01001'']
     = Some ''01001'' \<and>
   length ''01001'' = 5 \<and> ''01001'' = zfill 2 ''01'' @ zfill 3 ''001''"
  using geoid_join_key[of
      "\<lparr>columns = [''STATEFP'', ''COUNTYFP'', ''geometry''],
        rws = [[Some ''01'', Some ''001'', Some ''POLYGON'']]\<rparr>"
      "\<lparr>columns = [''STATEFP'', ''COUNTYFP'', ''geometry'', ''GEOID''],
        rws = [[Some ''01'', Some ''001'', Some ''POLYGON'', Some ''01001'']]\<rparr>"
      0 "''01''" "''001''"]
  by (simp add: wf_frame_def load_geometry_def get_column_def set_column_def col_index_def
      cell_at_def geoid_of_def zfill_def)

text \<open>
  C1 as stated fails: with the one-character codes \<open>1\<close> and \<open>1\<close> the loader derives
  \<open>00011\<close>, while padding each component to its own width gives \<open>01001\<close>; and with
  codes of 3 and 4 characters the key has 7 characters.
\<close>

theorem geoid_componentwise_counterexample:
  "load_geometry \<lparr>columns = [''STATEFP'', ''COUNTYFP''],
                  rws = [[Some ''1'', Some ''1''], [Some ''123'', Some ''4567'']]\<rparr>
     = Inr \<lparr>columns = [''STATEFP'', ''COUNTYFP'', ''GEOID''],
            rws = [[Some ''1'', Some ''1'', Some ''00011''],
                   [Some ''123'', Some ''4567'', Some ''1234567'']]\<rparr> \<and>
   zfill 2 ''1'' @ zfill 3 ''1'' = ''01001''"
  by (simp add: load_geometry_def get_column_def set_column_def col_index_def
      geoid_of_def zfill_def eval_nat_numeral)

section \<open>The coercion loop\<close>

lemma row_update_eq:
  assumes "distinct cols" "length r = length cols" "c \<in> set cols"
  shows "map2 (\<lambda>d old. if d = c then f (r ! col_index cols c) else old) cols r
       = map2 (\<lambda>d v. if d = c then f v else v) cols r"
proof (rule nth_equalityI, goal_cases)
  case 1 show ?case by simp
next
  case (2 j)
  then have j: "j < length cols" using assms(2) by simp
  show ?case using j assms col_index_unique[OF assms(1) j] by auto
qed

lemma row_update_absent:
  assumes "length r = length cols" "c \<notin> set cols"
  shows "map2 (\<lambda>d v. if d = c then f v else v) cols r = r"
proof (rule nth_equalityI, goal_cases)
  case 1 show ?case using assms by simp
next
  case (2 j)
  then show ?case using assms nth_mem[of j cols] by auto
qed

lemma coerce_col_eq:
  assumes "wf_frame t" "distinct (columns t)"
  shows "coerce_col parse c t = Inr (map_col (to_numeric parse) c t)"
proof (cases "c \<in> set (columns t)")
  case True
  have "map2 (\<lambda>r v. map2 (\<lambda>d old. if d = c then v else old) (columns t) r) (rws t)
          (map (to_numeric parse) (map (\<lambda>r. r ! col_index (columns t) c) (rws t)))
      = map (\<lambda>r. map2 (\<lambda>d old. if d = c then to_numeric parse (r ! col_index (columns t) c) else old) (columns t) r) (rws t)"
    by (simp add: map2_id_left o_def)
  also have "\<dots> = map (\<lambda>r. map2 (\<lambda>d v. if d = c then to_numeric parse v else v) (columns t) r) (rws t)"
    using assms True by (intro map_cong refl row_update_eq) (auto dest: wf_frame_row)
  finally show ?thesis using True
    by (simp add: coerce_col_def get_column_def bind_err_def set_column_def map_col_def)
next
  case False
  have "map (\<lambda>r. map2 (\<lambda>d v. if d = c then to_numeric parse v else v) (columns t) r) (rws t) = rws t"
    using assms False by (intro map_idI row_update_absent) (auto dest: wf_frame_row)
  then show ?thesis using False by (simp add: coerce_col_def map_col_def)
qed

lemma wf_map_col: "wf_frame t \<Longrightarrow> wf_frame (map_col f c t)"
  by (auto simp: wf_frame_def map_col_def list_all_iff)

lemma columns_map_col: "columns (map_col f c t) = columns t"
  by (simp add: map_col_def)

lemma wf_map_cols: "wf_frame t \<Longrightarrow> wf_frame (map_cols f cs t)"
  by (auto simp: wf_frame_def map_cols_def list_all_iff)

lemma columns_map_cols: "columns (map_cols f cs t) = columns t"
  by (simp add: map_cols_def)

lemma to_numeric_idem: "to_numeric parse (to_numeric parse v) = to_numeric parse v"
  by (cases v) (auto simp: to_numeric_def split: option.splits)

lemma map_cols_Nil: "wf_frame t \<Longrightarrow> map_cols f [] t = t"
proof -
  assume wf: "wf_frame t"
  have "map (\<lambda>r. map2 (\<lambda>d v. v) (columns t) r) (rws t) = rws t"
  proof (intro map_idI)
    fix r assume "r \<in> set (rws t)"
    then have "length r = length (columns t)" using wf wf_frame_row by blast
    then show "map2 (\<lambda>d v. v) (columns t) r = r"
      by (intro nth_equalityI) auto
  qed
  then show ?thesis by (simp add: map_cols_def)
qed

lemma map2_map2_snd:
  "length r = length cols \<Longrightarrow> map2 g cols (map2 h cols r) = map2 (\<lambda>d v. g d (h d v)) cols r"
  by (intro nth_equalityI) auto

lemma row_cols_Cons:
  assumes len: "length r = length cols" and idem: "\<And>v. f (f v) = f v"
  shows "map2 (\<lambda>d v. if d \<in> set cs then f v else v) cols
            (map2 (\<lambda>d v. if d = c then f v else v) cols r)
        = map2 (\<lambda>d v. if d \<in> set (c # cs) then f v else v) cols r"
  unfolding map2_map2_snd[OF len]
  by (intro nth_equalityI) (auto simp: idem)

lemma map_cols_Cons:
  assumes "wf_frame t" and idem: "\<And>v. f (f v) = f v"
  shows "map_cols f cs (map_col f c t) = map_cols f (c # cs) t"
proof -
  have row: "map2 (\<lambda>d v. if d \<in> set cs then f v else v) (columns t)
                    (map2 (\<lambda>d v. if d = c then f v else v) (columns t) r)
           = map2 (\<lambda>d v. if d \<in> set (c # cs) then f v else v) (columns t) r"
    if "r \<in> set (rws t)" for r
  proof -
    have len: "length r = length (columns t)" using that assms(1) wf_frame_row by blast
    show ?thesis using row_cols_Cons[OF len idem, of cs c] .
  qed
  have "map (\<lambda>r. map2 (\<lambda>d v. if d \<in> set cs then f v else v) (columns t)
                    (map2 (\<lambda>d v. if d = c then f v else v) (columns t) r)) (rws t)
      = map (\<lambda>r. map2 (\<lambda>d v. if d \<in> set (c # cs) then f v else v) (columns t) r) (rws t)"
    by (rule map_cong[OF refl row])
  then show ?thesis by (simp add: map_cols_def map_col_def o_def)
qed

lemma coerce_all_eq:
  "wf_frame t \<Longrightarrow> distinct (columns t) \<Longrightarrow>
   coerce_all parse cs t = Inr (map_cols (to_numeric parse) cs t)"
proof (induction cs arbitrary: t)
  case Nil
  then show ?case by (simp add: map_cols_Nil)
next
  case (Cons c cs)
  have "coerce_all parse (c # cs) t = coerce_all parse cs (map_col (to_numeric parse) c t)"
    using Cons.prems by (simp add: coerce_col_eq bind_err_def)
  also have "\<dots> = Inr (map_cols (to_numeric parse) cs (map_col (to_numeric parse) c t))"
    using Cons.prems by (intro Cons.IH) (simp_all add: wf_map_col columns_map_col)
  also have "\<dots> = Inr (map_cols (to_numeric parse) (c # cs) t)"
    using Cons.prems by (simp add: map_cols_Cons to_numeric_idem)
  finally show ?case .
qed

lemma map_cols_cong:
  assumes "\<And>d. d \<in> set (columns t) \<Longrightarrow> (d \<in> set cs) = (d \<in> set cs')"
  shows "map_cols f cs t = map_cols f cs' t"
proof -
  have "map2 (\<lambda>d v. if d \<in> set cs then f v else v) (columns t) r
      = map2 (\<lambda>d v. if d \<in> set cs' then f v else v) (columns t) r" for r
    using assms by (intro map_cong refl) (auto dest: set_zip_leftD)
  then show ?thesis by (simp add: map_cols_def)
qed

lemma cell_at_map_cols:
  assumes "c \<in> set cols" "length r = length cols"
  shows "cell_at cols c (map2 (\<lambda>d v. if d \<in> S then f v else v) cols r)
       = (if c \<in> S then f (cell_at cols c r) else cell_at cols c r)"
  using assms col_index_less[OF assms(1)] col_index_nth[OF assms(1)]
  by (simp add: cell_at_def)

lemma wf_read_table: "wf_frame csv \<Longrightarrow> wf_frame (read_table csv)"
  by (auto simp: wf_frame_def read_table_def list_all_iff)

lemma collect_map_Inr:
  "(\<And>x. x \<in> set xs \<Longrightarrow> f x = Inr (g x)) \<Longrightarrow> collect (map f xs) = Inr (map g xs)"
  by (induction xs) (auto simp: bind_err_def)

lemma text_add_sep: "\<not> is_num a \<Longrightarrow>
   text_add a (Str s) = Inr (case a of Str x \<Rightarrow> Str (x @ s) | _ \<Rightarrow> NA)"
  by (cases a) (auto simp: is_num_def)

lemma text_add_label: "\<not> is_num a \<Longrightarrow> \<not> is_num b \<Longrightarrow>
   text_add (case a of Str x \<Rightarrow> Str (x @ '', '') | _ \<Rightarrow> NA) b = Inr (county_label a b)"
  by (cases a; cases b) (auto simp: is_num_def county_label_def)

lemma read_cell_not_num: "\<not> is_num (read_cell v)"
  by (cases v) (auto simp: read_cell_def is_num_def)

lemma numeric_cols_names:
  "''COUNTY_NAME'' \<notin> set numeric_cols" "''STATE_NAME'' \<notin> set numeric_cols"
  "''county_state'' \<notin> set numeric_cols"
  by (simp_all add: numeric_cols_def)

lemma loaded_cell:
  assumes wf: "wf_frame csv" and c: "c \<in> set (columns csv)"
    and r: "r \<in> set (rws (map_cols (to_numeric parse) cs (read_table csv)))"
  shows "\<exists>r0 \<in> set (rws csv). cell_at (columns csv) c r =
           (if c \<in> set cs then to_numeric parse (read_cell (cell_at (columns csv) c r0))
            else read_cell (cell_at (columns csv) c r0))"
proof -
  from r obtain r0 where r0: "r0 \<in> set (rws csv)"
    and req: "r = map2 (\<lambda>d v. if d \<in> set cs then to_numeric parse v else v) (columns csv) (map read_cell r0)"
    by (auto simp: map_cols_def read_table_def)
  have len: "length r0 = length (columns csv)" using wf r0 wf_frame_row by blast
  have "cell_at (columns csv) c r =
          (if c \<in> set cs then to_numeric parse (cell_at (columns csv) c (map read_cell r0))
           else cell_at (columns csv) c (map read_cell r0))"
    unfolding req using len by (intro cell_at_map_cols[OF c]) simp
  moreover have "cell_at (columns csv) c (map read_cell r0) = read_cell (cell_at (columns csv) c r0)"
    using len col_index_less[OF c] by (simp add: cell_at_def)
  ultimately show ?thesis using r0 by auto
qed

lemma loaded_text_cell:
  assumes "wf_frame csv" "c \<in> set (columns csv)" "c \<notin> set cs"
    and "r \<in> set (rws (map_cols (to_numeric parse) cs (read_table csv)))"
  shows "\<not> is_num (cell_at (columns csv) c r)"
  using loaded_cell[OF assms(1,2,4)] assms(3) by (auto simp: read_cell_not_num)

lemma load_data_eq:
  fixes parse :: "string \<Rightarrow> 'n option"
  assumes wf: "wf_frame csv" and dist: "distinct (columns csv)"
    and cn: "''COUNTY_NAME'' \<in> set (columns csv)" and sn: "''STATE_NAME'' \<in> set (columns csv)"
    and geo: "load_geometry shp = Inr g"
  shows "load_data parse csv shp =
     Inr (set_column (map_cols (to_numeric parse) numeric_cols (read_table csv)) ''county_state''
            (map (\<lambda>r. county_label (cell_at (columns csv) ''COUNTY_NAME'' r)
                                    (cell_at (columns csv) ''STATE_NAME'' r))
               (rws (map_cols (to_numeric parse) numeric_cols (read_table csv)))),
          read_table g, numeric_cols)"
proof -
  let ?t = "map_cols (to_numeric parse) numeric_cols (read_table csv)"
  let ?cn = "cell_at (columns csv) ''COUNTY_NAME''"
  let ?sn = "cell_at (columns csv) ''STATE_NAME''"
  have cols: "columns ?t = columns csv" by (simp add: map_cols_def read_table_def)
  have loop: "coerce_all parse numeric_cols (read_table csv) = Inr ?t"
    using wf dist by (intro coerce_all_eq wf_read_table) (simp_all add: read_table_def)
  have names: "get_column ?t ''COUNTY_NAME'' = Inr (map ?cn (rws ?t))"
    using cn by (simp add: get_column_def cols cell_at_def)
  have states: "get_column ?t ''STATE_NAME'' = Inr (map ?sn (rws ?t))"
    using sn by (simp add: get_column_def cols cell_at_def)
  have nn: "\<not> is_num (?cn r)" and ns: "\<not> is_num (?sn r)" if "r \<in> set (rws ?t)" for r
    using loaded_text_cell[OF wf cn numeric_cols_names(1) that]
      loaded_text_cell[OF wf sn numeric_cols_names(2) that] by simp_all
  have pre: "collect (map (\<lambda>a. text_add a (Str '', '')) (map ?cn (rws ?t)))
           = Inr (map (\<lambda>r. case ?cn r of Str x \<Rightarrow> Str (x @ '', '') | _ \<Rightarrow> NA) (rws ?t))"
    unfolding map_map o_def using nn by (intro collect_map_Inr) (simp add: text_add_sep)
  have lab: "collect (map2 text_add
                (map (\<lambda>r. case ?cn r of Str x \<Rightarrow> Str (x @ '', '') | _ \<Rightarrow> NA) (rws ?t))
                (map ?sn (rws ?t)))
           = Inr (map (\<lambda>r. county_label (?cn r) (?sn r)) (rws ?t))"
    unfolding map2_same using nn ns by (intro collect_map_Inr) (simp add: text_add_label)
  show ?thesis
    unfolding load_data_def bind_err_def loop names pre states lab geo sum.case by (rule refl)
qed

lemma load_geometry_ok:
  "''STATEFP'' \<in> set (columns shp) \<Longrightarrow> ''COUNTYFP'' \<in> set (columns shp) \<Longrightarrow>
   \<exists>g. load_geometry shp = Inr g"
  by (simp add: load_geometry_def get_column_def)

text \<open>
  C10. When a whitelist column \<open>col\<close> is absent from the table read from the CSV file
  (a well-formed table with distinct column labels), its turn of the loop returns the
  table unchanged and raises nothing; the whole loop does what the loop without that
  entry does, so the coercion of the other columns is as it would be; the loop ends
  without error on a table with the file's column labels, so \<open>col\<close> is not created; and
  \<open>load_data\<close> succeeds whenever the name and FIPS columns it reads are there, again
  without the column \<open>col\<close>.
\<close>

theorem absent_whitelist_column_skipped:
  fixes parse :: "string \<Rightarrow> 'n option"
  assumes wf: "wf_frame csv" and dist: "distinct (columns csv)"
    and wl: "col \<in> set numeric_cols" and absent: "col \<notin> set (columns csv)"
  shows "coerce_col parse col (read_table csv) = Inr (read_table csv) \<and>
         coerce_all parse numeric_cols (read_table csv)
           = coerce_all parse (removeAll col numeric_cols) (read_table csv) \<and>
         (\<exists>t. coerce_all parse numeric_cols (read_table csv) = Inr t \<and>
              columns t = columns csv \<and> col \<notin> set (columns t)) \<and>
         (''COUNTY_NAME'' \<in> set (columns csv) \<and> ''STATE_NAME'' \<in> set (columns csv) \<and>
          ''STATEFP'' \<in> set (columns shp) \<and> ''COUNTYFP'' \<in> set (columns shp) \<longrightarrow>
            (\<exists>t g. load_data parse csv shp = Inr (t, g, numeric_cols) \<and>
                   col \<notin> set (columns t)))"
proof -
  let ?raw = "read_table csv :: 'n cell frame"
  have wfr: "wf_frame ?raw" using wf by (rule wf_read_table)
  have cr: "columns ?raw = columns csv" by (simp add: read_table_def)
  have skip: "coerce_col parse col ?raw = Inr ?raw"
    using absent by (simp add: coerce_col_def cr)
  have all: "coerce_all parse cs ?raw = Inr (map_cols (to_numeric parse) cs ?raw)" for cs
    using wfr dist by (intro coerce_all_eq) (simp_all add: cr)
  have same: "map_cols (to_numeric parse) numeric_cols ?raw
            = map_cols (to_numeric parse) (removeAll col numeric_cols) ?raw"
    using absent by (intro map_cols_cong) (auto simp: cr)
  have colsT: "columns (map_cols (to_numeric parse) numeric_cols ?raw) = columns csv"
    by (simp add: columns_map_cols cr)
  have load: "\<exists>t g. load_data parse csv shp = Inr (t, g, numeric_cols) \<and> col \<notin> set (columns t)"
    if req: "''COUNTY_NAME'' \<in> set (columns csv)" "''STATE_NAME'' \<in> set (columns csv)"
       "''STATEFP'' \<in> set (columns shp)" "''COUNTYFP'' \<in> set (columns shp)"
  proof -
    obtain g where g: "load_geometry shp = Inr g"
      using load_geometry_ok[OF req(3,4)] by blast
    have ne: "col \<noteq> ''county_state''" using wl numeric_cols_names(3) by auto
    show ?thesis
      unfolding load_data_eq[OF wf dist req(1,2) g]
      using absent ne by (simp add: set_column_def colsT)
  qed
  show ?thesis using skip all same colsT absent load by simp
qed

theorem absent_whitelist_column_skipped_witness:
  "wf_frame \<lparr>columns = [''GEOID'', ''COUNTY_NAME'', ''STATE_NAME'', ''gdp''],
              rws = [[Some ''01001'', Some ''Autauga'', Some ''Alabama'', Some ''10'']]\<rparr> \<and>
   ''population'' \<in> set numeric_cols \<and>
   coerce_all (\<lambda>s. if s = ''10'' then Some (10::int) else None) numeric_cols
      (read_table \<lparr>columns = [''GEOID'', ''COUNTY_NAME'', ''STATE_NAME'', ''gdp''],
              rws = [[Some ''01001'', Some ''Autauga'', Some ''Alabama'', Some ''10'']]\<rparr>)
    = coerce_all (\<lambda>s. if s = ''10'' then Some (10::int) else None) (removeAll ''population'' numeric_cols)
      (read_table \<lparr>columns = [''GEOID'', ''COUNTY_NAME'', ''STATE_NAME'', ''gdp''],
              rws = [[Some ''01001'', Some ''Autauga'', Some ''Alabama'', Some ''10'']]\<rparr>) \<and>
   (\<exists>t g. load_data (\<lambda>s. if s = ''10'' then Some (10::int) else None)
       \<lparr>columns = [''GEOID'', ''COUNTY_NAME'', ''STATE_NAME'', ''gdp''],
              rws = [[Some ''01001'', Some ''Autauga'', Some ''Alabama'', Some ''10'']]\<rparr>
       \<lparr>columns = [''STATEFP'', ''COUNTYFP''], rws = [[Some ''01'', Some ''001'']]\<rparr>
      = Inr (t, g, numeric_cols) \<and> ''population'' \<notin> set (columns t))"
  using absent_whitelist_column_skipped[of
      "\<lparr>columns = [''GEOID'', ''COUNTY_NAME'', ''STATE_NAME'', ''gdp''],
              rws = [[Some ''01001'', Some ''Autauga'', Some ''Alabama'', Some ''10'']]\<rparr>"
      "''population''" "\<lambda>s. if s = ''10'' then Some (10::int) else None"
      "\<lparr>columns = [''STATEFP'', ''COUNTYFP''], rws = [[Some ''01'', Some ''001'']]\<rparr>"]
  by (simp add: wf_frame_def numeric_cols_def)

section \<open>Analysis view: the rows of the fit\<close>

lemma load_sample:
  "load_data sample_parse sample_csv sample_shp = Inr (sample_df, sample_gdf, numeric_cols)"
  by (simp add: load_data_def bind_err_def sample_csv_def sample_shp_def sample_df_def
      sample_gdf_def sample_parse_def numeric_cols_def read_table_def read_cell_def
      coerce_col_def get_column_def set_column_def col_index_def to_numeric_def
      load_geometry_def geoid_of_def zfill_def)

lemma county_label_NA: "(county_label a b = NA) = (\<not> (is_text a \<and> is_text b))"
  by (cases a; cases b) (auto simp: county_label_def is_text_def)

lemma select_cols_ok:
  "set cs \<subseteq> set (columns t) \<Longrightarrow>
   select_cols t cs = Inr \<lparr>columns = cs, rws = map (\<lambda>r. map (\<lambda>c. cell_at (columns t) c r) cs) (rws t)\<rparr>"
proof -
  assume "set cs \<subseteq> set (columns t)"
  then have "filter (\<lambda>c. c \<notin> set (columns t)) cs = []" by (auto simp: filter_empty_conv)
  then show ?thesis by (simp add: select_cols_def)
qed

text \<open>
  C3 (amended). For X and Y columns of the record table, the table the regression is
  fitted on holds exactly the rows in which the X value, the Y value and the display
  label \<open>county_state\<close> are all present, in their order, with the values they have (none
  is imputed); and the display label of a row is missing exactly when its county name
  or its state name is not a text.
\<close>

theorem complete_case_rows:
  assumes "x_col \<in> set (columns t)" and "y_col \<in> set (columns t)"
    and "''county_state'' \<in> set (columns t)"
  shows "plot_df t x_col y_col =
           Inr \<lparr>columns = [x_col, y_col, ''county_state''],
                rws = map (\<lambda>r. [cell_at (columns t) x_col r, cell_at (columns t) y_col r,
                                 cell_at (columns t) ''county_state'' r])
                        (filter (\<lambda>r. cell_at (columns t) x_col r \<noteq> NA \<and>
                                      cell_at (columns t) y_col r \<noteq> NA \<and>
                                      cell_at (columns t) ''county_state'' r \<noteq> NA) (rws t))\<rparr> \<and>
         (\<forall>name state :: 'n cell. (county_label name state = NA) = (\<not> (is_text name \<and> is_text state)))"
proof -
  have sel: "select_cols t [x_col, y_col, ''county_state''] =
      Inr \<lparr>columns = [x_col, y_col, ''county_state''],
           rws = map (\<lambda>r. map (\<lambda>c. cell_at (columns t) c r) [x_col, y_col, ''county_state'']) (rws t)\<rparr>"
    using assms by (intro select_cols_ok) simp
  show ?thesis
    unfolding plot_df_def sel
    by (simp add: bind_err_def dropna_def filter_map o_def county_label_NA eq_commute[of NA])
qed

theorem complete_case_rows_witness:
  "''gdp'' \<in> set (columns sample_df) \<and>
   ''Sustainable_Aviation_Fuels_degree_centrality'' \<in> set (columns sample_df) \<and>
   ''county_state'' \<in> set (columns sample_df) \<and>
   plot_df sample_df ''gdp'' ''Sustainable_Aviation_Fuels_degree_centrality'' =
     Inr \<lparr>columns = [''gdp'', ''Sustainable_Aviation_Fuels_degree_centrality'', ''county_state''],
          rws = [[Num 10, Num 5, Str ''Autauga, Alabama'']]\<rparr>"
  using complete_case_rows[of "''gdp''" sample_df "''Sustainable_Aviation_Fuels_degree_centrality''"]
  by (auto simp: sample_df_def cell_at_def col_index_def)

text \<open>
  C3 as stated fails: the second county of the sample file has both a GDP (20) and a
  centrality score (15) but no county name, so its display label is missing and
  \<open>dropna()\<close>, which looks at all three selected columns, removes it from the fit.
\<close>

theorem complete_case_label_counterexample:
  "load_data sample_parse sample_csv sample_shp = Inr (sample_df, sample_gdf, numeric_cols) \<and>
   cell_at (columns sample_df) ''gdp'' (rws sample_df ! 1) = Num 20 \<and>
   cell_at (columns sample_df) ''Sustainable_Aviation_Fuels_degree_centrality'' (rws sample_df ! 1) = Num 15 \<and>
   plot_df sample_df ''gdp'' ''Sustainable_Aviation_Fuels_degree_centrality'' =
     Inr \<lparr>columns = [''gdp'', ''Sustainable_Aviation_Fuels_degree_centrality'', ''county_state''],
          rws = [[Num 10, Num 5, Str ''Autauga, Alabama'']]\<rparr>"
  by (simp add: load_data_def bind_err_def sample_csv_def sample_shp_def sample_df_def
      sample_gdf_def sample_parse_def numeric_cols_def read_table_def read_cell_def
      coerce_col_def get_column_def set_column_def col_index_def to_numeric_def
      load_geometry_def geoid_of_def zfill_def plot_df_def select_cols_def dropna_def cell_at_def)

section \<open>Choropleth tab\<close>

lemma options_cases:
  assumes "(key, label) \<in> set metric_options"
  shows "(key, label) = (''Sustainable_Aviation_Fuels_degree_centrality'', ''SAF Centrality'')
    \<or> (key, label) = (''gdp'', ''GDP'')
    \<or> (key, label) = (''population'', ''Population'')
    \<or> (key, label) = (''airport_count'', ''Airport Count'')
    \<or> (key, label) = (''enplanements'', ''Enplanements'')
    \<or> (key, label) = (''passengers'', ''Passengers'')
    \<or> (key, label) = (''departures'', ''Departures'')
    \<or> (key, label) = (''arrivals'', ''Arrivals'')
    \<or> (key, label) = (''freight'', ''Freight'')
    \<or> (key, label) = (''mail'', ''Mail'')
    \<or> (key, label) = (''biomass'', ''Biomass (Coming Soon)'')
    \<or> (key, label) = (''ccs'', ''CCS (Coming Soon)'')
    \<or> (key, label) = (''hydrogen'', ''Hydrogen (Coming Soon)'')"
  using assms unfolding metric_options_def set_simps insert_iff empty_iff
  by (simp only: disj_assoc simp_thms)


lemma placeholder_iff:
  assumes "(key, label) \<in> set metric_options"
  shows "contains ''Coming Soon'' label = (key \<in> {''biomass'', ''ccs'', ''hydrogen''})"
  using options_cases[OF assms] by (elim disjE) simp_all

lemma joiner_sample: "joiner sample_gdf sample_df ''gdp'' = Inr sample_joined"
  by (simp add: joiner_def merge_left_def dropna_subset_def bind_err_def sample_gdf_def
      sample_df_def sample_joined_def merged_columns_def cell_at_def col_index_def drop_key_def)

lemma joiner_sample_hydrogen: "joiner sample_gdf sample_df ''hydrogen'' = Inl (KeyError ''hydrogen'')"
  by (simp add: joiner_def merge_left_def dropna_subset_def bind_err_def sample_gdf_def
      sample_df_def merged_columns_def cell_at_def col_index_def drop_key_def)

lemma joiner_county: "joiner sample_gdf county_df ''gdp'' = Inr county_joined"
  by (simp add: joiner_def merge_left_def dropna_subset_def bind_err_def sample_gdf_def
      county_df_def county_joined_def merged_columns_def cell_at_def col_index_def drop_key_def)

lemma chart_county: "choropleth_mapbox county_joined ''gdp'' = Inr (ChoroplethMap county_joined ''gdp'')"
  by (simp add: choropleth_mapbox_def hover_data_def county_joined_def)

lemma chart_sample: "choropleth_mapbox sample_joined ''gdp'' = Inl ValueError"
  by (simp add: choropleth_mapbox_def hover_data_def sample_joined_def)

text \<open>
  C5. For a key of the catalog, the Choropleth tab does one of two things. For the
  placeholder keys (\<open>biomass\<close>, \<open>ccs\<close>, \<open>hydrogen\<close>) it only adds the info box with the
  "not available yet" text: the result does not depend on the tables, \<open>merged\<close> is not
  assigned, and no error of the Joiner or of the chart can arise. For every other key
  it proceeds to the Joiner: the Joiner's error, or else the chart's error, or else the
  map drawn from the Joiner's result is what comes out.
\<close>

theorem placeholder_metric_skips_joiner:
  assumes "map_of metric_options key = Some label"
  shows "choropleth_tab key s =
     (if key \<in> {''biomass'', ''ccs'', ''hydrogen''}
      then Inr (s\<lparr>s_page := s_page s @
             [Info (label @ '' not available yet. This demo shows SAF, but the tool is generalizable to all climate techs.'')]\<rparr>)
      else bind_err (joiner (s_gdf s) (s_df s) key) (\<lambda>merged.
           bind_err (choropleth_mapbox merged key) (\<lambda>fig.
             Inr (s\<lparr>s_merged := Some merged,
                    s_page := s_page s @ [fig, Interpretation]\<rparr>))))"
proof -
  have "(key, label) \<in> set metric_options" using assms by (rule map_of_SomeD)
  then have "contains ''Coming Soon'' label = (key \<in> {''biomass'', ''ccs'', ''hydrogen''})"
    by (rule placeholder_iff)
  then show ?thesis unfolding choropleth_tab_def assms option.case by (rule if_cong) simp_all
qed

theorem placeholder_metric_skips_joiner_witness:
  "map_of metric_options ''hydrogen'' = Some ''Hydrogen (Coming Soon)'' \<and>
   joiner (s_gdf sample_state) (s_df sample_state) ''hydrogen'' = Inl (KeyError ''hydrogen'') \<and>
   choropleth_tab ''hydrogen'' sample_state =
     Inr (sample_state\<lparr>s_page :=
       [Info ''Hydrogen (Coming Soon) not available yet. This demo shows SAF, but the tool is generalizable to all climate techs.'']\<rparr>) \<and>
   map_of metric_options ''gdp'' = Some ''GDP'' \<and>
   choropleth_tab ''gdp'' county_session =
     Inr (county_session\<lparr>s_merged := Some county_joined,
                         s_page := [ChoroplethMap county_joined ''gdp'', Interpretation]\<rparr>) \<and>
   choropleth_tab ''gdp'' sample_state = Inl ValueError"
  using placeholder_metric_skips_joiner[of "''hydrogen''" "''Hydrogen (Coming Soon)''" sample_state]
    placeholder_metric_skips_joiner[of "''gdp''" "''GDP''" county_session]
    placeholder_metric_skips_joiner[of "''gdp''" "''GDP''" sample_state]
    joiner_sample joiner_sample_hydrogen joiner_county chart_county chart_sample
  by (simp add: metric_options_def sample_state_def county_session_def bind_err_def)

lemma merge_sample: "merge_left sample_gdf sample_df ''GEOID'' = Inr sample_merged"
  by (simp add: merge_left_def sample_gdf_def sample_df_def sample_merged_def
      merged_columns_def cell_at_def col_index_def drop_key_def)

lemma dropna_sample: "dropna_subset sample_merged ''gdp'' = Inr sample_joined"
  by (simp add: dropna_subset_def sample_merged_def sample_joined_def cell_at_def col_index_def)


lemma joiner_statement_sample_again:
  "joiner_statement ''gdp'' [sample_gdf, sample_df, sample_merged, sample_joined] 0 1 =
     Inr ([sample_gdf, sample_df, sample_merged, sample_joined, sample_merged, sample_joined], 5)"
  using merge_sample dropna_sample
  by (simp add: joiner_statement_def frame_merge_def frame_dropna_def bind_err_def)







section \<open>The Joiner\<close>

lemma catalog_key_no_suffix:
  assumes "(key, label) \<in> set metric_options"
  shows "c @ ''_x'' \<noteq> key \<and> c @ ''_y'' \<noteq> key"
  using options_cases[OF assms]
  by (elim disjE) (auto dest: arg_cong[where f = rev])

lemma col_index_append_right:
  "c \<notin> set xs \<Longrightarrow> col_index (xs @ ys) c = length xs + col_index ys c"
  unfolding col_index_def by (induction xs) auto

lemma col_index_map_key:
  "(\<And>d. d \<in> set xs \<Longrightarrow> (f d = k) = (d = k)) \<Longrightarrow> col_index (map f xs) k = col_index xs k"
  unfolding col_index_def by (induction xs) auto

lemma drop_key_nth:
  "length r = length cols \<Longrightarrow> k \<in> set cols \<Longrightarrow> k \<noteq> k0 \<Longrightarrow>
   drop_key cols k0 r ! col_index (filter (\<lambda>c. c \<noteq> k0) cols) k = r ! col_index cols k"
proof (induction cols arbitrary: r)
  case Nil
  then show ?case by simp
next
  case (Cons c cols)
  then obtain v vs where r: "r = v # vs" by (cases r) auto
  show ?case
  proof (cases "c = k")
    case True
    then show ?thesis using Cons.prems r by (simp add: drop_key_def col_index_def)
  next
    case False
    then have "k \<in> set cols" using Cons.prems by simp
    then have IH: "drop_key cols k0 vs ! col_index (filter (\<lambda>c. c \<noteq> k0) cols) k = vs ! col_index cols k"
      using Cons.IH[of vs] Cons.prems r by simp
    show ?thesis using False IH r by (simp add: drop_key_def col_index_def)
  qed
qed

lemma joined_row_case:
  "(case ms of [] \<Rightarrow> [g @ replicate (length (filter (\<lambda>c. c \<noteq> ''GEOID'') (columns recs))) NA]
         | a # list \<Rightarrow> map (\<lambda>r. g @ drop_key (columns recs) ''GEOID'' r) (a # list))
      = map (joined_row recs)
          (case ms of [] \<Rightarrow> [(g, None)] | a # list \<Rightarrow> map (\<lambda>r. (g, Some r)) (a # list))"
  by (cases ms) (simp_all add: joined_row_def)

lemma merge_left_rows:
  assumes "''GEOID'' \<in> set (columns geo)" "''GEOID'' \<in> set (columns recs)"
  shows "merge_left geo recs ''GEOID'' =
           Inr \<lparr>columns = merged_columns (columns geo) (columns recs) ''GEOID'',
                rws = map (joined_row recs) (left_join geo recs)\<rparr>"
proof -
  have "map (joined_row recs) (left_join geo recs) =
        concat (map (\<lambda>g.
                  (case filter (\<lambda>r. cell_at (columns recs) ''GEOID'' r = cell_at (columns geo) ''GEOID'' g)
                          (rws recs) of
                     [] \<Rightarrow> [g @ replicate (length (filter (\<lambda>c. c \<noteq> ''GEOID'') (columns recs))) NA]
                   | ms \<Rightarrow> map (\<lambda>r. g @ drop_key (columns recs) ''GEOID'' r) ms))
                  (rws geo))"
    unfolding left_join_def map_concat map_map o_def
    by (rule arg_cong[where f = concat], rule map_cong[OF refl], rule joined_row_case[symmetric])
  then show ?thesis
    using assms by (simp add: merge_left_def)
qed

lemma left_join_members:
  assumes "p \<in> set (left_join geo recs)"
  shows "fst p \<in> set (rws geo) \<and> (case snd p of None \<Rightarrow> True | Some r \<Rightarrow> r \<in> set (rws recs))"
proof -
  from assms obtain g where g: "g \<in> set (rws geo)"
    and p: "p \<in> set (case filter (\<lambda>r. cell_at (columns recs) ''GEOID'' r = cell_at (columns geo) ''GEOID'' g)
               (rws recs) of [] \<Rightarrow> [(g, None)] | a # list \<Rightarrow> map (\<lambda>r. (g, Some r)) (a # list))"
    unfolding left_join_def set_concat set_map by blast
  let ?ms = "filter (\<lambda>r. cell_at (columns recs) ''GEOID'' r = cell_at (columns geo) ''GEOID'' g) (rws recs)"
  show ?thesis
  proof (cases ?ms)
    case Nil
    then show ?thesis using p g by simp
  next
    case (Cons a list)
    then obtain r where r: "r \<in> set ?ms" and pr: "p = (g, Some r)" using p by auto
    from r have "r \<in> set (rws recs)" by simp
    then show ?thesis using g pr by simp
  qed
qed

lemma left_join_keeps_geometries: "fst ` set (left_join geo recs) = set (rws geo)"
proof
  show "fst ` set (left_join geo recs) \<subseteq> set (rws geo)"
  proof
    fix g assume "g \<in> fst ` set (left_join geo recs)"
    then obtain p where "p \<in> set (left_join geo recs)" "g = fst p" by blast
    then show "g \<in> set (rws geo)" using left_join_members[of p geo recs] by simp
  qed
  show "set (rws geo) \<subseteq> fst ` set (left_join geo recs)"
  proof
    fix g assume g: "g \<in> set (rws geo)"
    let ?ms = "filter (\<lambda>r. cell_at (columns recs) ''GEOID'' r = cell_at (columns geo) ''GEOID'' g) (rws recs)"
    let ?ps = "case ?ms of [] \<Rightarrow> [(g, None)] | a # list \<Rightarrow> map (\<lambda>r. (g, Some r)) (a # list)"
    have "\<exists>p \<in> set ?ps. fst p = g"
      by (cases ?ms) auto
    then obtain p where p: "p \<in> set ?ps" "fst p = g"
      by blast
    have "set ?ps \<subseteq> set (left_join geo recs)"
      unfolding left_join_def set_concat set_map using g by blast
    then have "p \<in> set (left_join geo recs)" using p(1) by blast
    then show "g \<in> fst ` set (left_join geo recs)" using p(2) by force
  qed
qed

lemma metric_cell:
  assumes wfg: "wf_frame geo" and wfr: "wf_frame recs"
    and key: "key \<in> set (columns recs)" "key \<notin> set (columns geo)" "key \<noteq> ''GEOID''"
    and nosuf: "\<And>c. c @ ''_x'' \<noteq> key \<and> c @ ''_y'' \<noteq> key"
    and p: "p \<in> set (left_join geo recs)"
  shows "cell_at (merged_columns (columns geo) (columns recs) ''GEOID'') key (joined_row recs p)
       = metric_of recs key p"
proof -
  let ?lc = "columns geo" and ?rc = "columns recs"
  let ?rest = "filter (\<lambda>c. c \<noteq> ''GEOID'') ?rc"
  let ?ln = "\<lambda>c. if c \<noteq> ''GEOID'' \<and> c \<in> set ?rc then c @ ''_x'' else c"
  let ?rn = "\<lambda>c. if c \<in> set ?lc then c @ ''_y'' else c"
  have inrest: "key \<in> set ?rest" using key by simp
  have notleft: "key \<notin> set (map ?ln ?lc)"
    using key(2) nosuf by auto
  have "col_index (map ?rn ?rest) key = col_index ?rest key"
    using key(2) nosuf by (intro col_index_map_key) auto
  then have idx: "col_index (merged_columns ?lc ?rc ''GEOID'') key = length ?lc + col_index ?rest key"
    unfolding merged_columns_def using col_index_append_right[OF notleft] by simp
  have j: "col_index ?rest key < length ?rest" using inrest by (rule col_index_less)
  have lg: "length (fst p) = length ?lc"
    using left_join_members[OF p] wfg wf_frame_row by blast
  show ?thesis
  proof (cases "snd p")
    case None
    then show ?thesis using idx lg j
      by (simp add: cell_at_def joined_row_def metric_of_def nth_append)
  next
    case (Some r)
    then have "r \<in> set (rws recs)" using left_join_members[OF p] by simp
    then have lr: "length r = length ?rc" using wfr wf_frame_row by blast
    have "drop_key ?rc ''GEOID'' r ! col_index ?rest key = r ! col_index ?rc key"
      using lr key by (intro drop_key_nth) simp_all
    then show ?thesis using Some idx lg
      by (simp add: cell_at_def joined_row_def metric_of_def nth_append)
  qed
qed


lemma take_joined_row:
  assumes wfg: "wf_frame geo" and p: "p \<in> set (left_join geo recs)"
  shows "take (length (columns geo)) (joined_row recs p) = fst p"
proof -
  have "length (fst p) = length (columns geo)"
    using left_join_members[OF p] wfg wf_frame_row by blast
  then show ?thesis by (simp add: joined_row_def)
qed

lemma unmatched_in_left_join:
  assumes "g \<in> set (rws geo)"
    and "filter (\<lambda>r. cell_at (columns recs) ''GEOID'' r = cell_at (columns geo) ''GEOID'' g)
           (rws recs) = []"
  shows "(g, None) \<in> set (left_join geo recs)"
proof -
  have "(g, None) \<in> set (case filter (\<lambda>r. cell_at (columns recs) ''GEOID'' r = cell_at (columns geo) ''GEOID'' g)
               (rws recs) of [] \<Rightarrow> [(g, None)] | a # list \<Rightarrow> map (\<lambda>r. (g, Some r)) (a # list))"
    using assms(2) by simp
  then show ?thesis
    unfolding left_join_def set_concat set_map using assms(1) by blast
qed

text \<open>
  C6 (amended). For well-formed geometry and record tables that both hold the identifier
  column, and a key of the metric catalog that is not a placeholder: the merge succeeds
  and is the left join on the identifier, that is, its rows are the geometry rows in
  their order, each followed by the fields of a matching record, once per match, and
  every geometry row is kept, followed by nulls only when no record matches. When the
  metric is a column of the record table and not of the geometry table, the Joiner
  returns that merge without exactly the rows whose metric is missing; the result is a
  table, with no rows when none survives. When the metric is not a column of the merge,
  the Joiner raises KeyError.
\<close>

theorem joiner_left_join_then_filter:
  assumes wfg: "wf_frame geo" and wfr: "wf_frame recs"
    and idg: "''GEOID'' \<in> set (columns geo)" and idr: "''GEOID'' \<in> set (columns recs)"
    and cat: "map_of metric_options key = Some label"
    and avail: "\<not> contains ''Coming Soon'' label"
  shows "\<exists>m. merge_left geo recs ''GEOID'' = Inr m \<and>
           columns m = merged_columns (columns geo) (columns recs) ''GEOID'' \<and>
           rws m = map (joined_row recs) (left_join geo recs) \<and>
           map (take (length (columns geo))) (rws m) = map fst (left_join geo recs) \<and>
           set (map (take (length (columns geo))) (rws m)) = set (rws geo) \<and>
           (\<forall>g \<in> set (rws geo).
              filter (\<lambda>r. cell_at (columns recs) ''GEOID'' r = cell_at (columns geo) ''GEOID'' g)
                (rws recs) = [] \<longrightarrow>
              g @ replicate (length (filter (\<lambda>c. c \<noteq> ''GEOID'') (columns recs))) NA
                \<in> set (rws m)) \<and>
           (key \<in> set (columns recs) \<and> key \<notin> set (columns geo) \<longrightarrow>
              joiner geo recs key =
                Inr \<lparr>columns = columns m,
                     rws = filter (\<lambda>r. cell_at (columns m) key r \<noteq> NA) (rws m)\<rparr> \<and>
              filter (\<lambda>r. cell_at (columns m) key r \<noteq> NA) (rws m) =
                map (joined_row recs) (joined_pairs geo recs key)) \<and>
           (key \<notin> set (columns m) \<longrightarrow> joiner geo recs key = Inl (KeyError key))"
proof -
  let ?cols = "merged_columns (columns geo) (columns recs) ''GEOID''"
  let ?m = "\<lparr>columns = ?cols, rws = map (joined_row recs) (left_join geo recs)\<rparr>"
  have mg: "merge_left geo recs ''GEOID'' = Inr ?m" by (rule merge_left_rows[OF idg idr])
  have tk: "map (take (length (columns geo))) (rws ?m) = map fst (left_join geo recs)"
    using take_joined_row[OF wfg] by (simp add: o_def cong: map_cong)
  have kept: "set (map (take (length (columns geo))) (rws ?m)) = set (rws geo)"
    unfolding tk using left_join_keeps_geometries[of geo recs] by simp
  have unm: "g @ replicate (length (filter (\<lambda>c. c \<noteq> ''GEOID'') (columns recs))) NA \<in> set (rws ?m)"
    if "g \<in> set (rws geo)"
      "filter (\<lambda>r. cell_at (columns recs) ''GEOID'' r = cell_at (columns geo) ''GEOID'' g)
         (rws recs) = []" for g
  proof -
    have "(g, None) \<in> set (left_join geo recs)" using that by (rule unmatched_in_left_join)
    then have "joined_row recs (g, None) \<in> set (rws ?m)" by simp
    then show ?thesis by (simp add: joined_row_def)
  qed
  have err: "joiner geo recs key = Inl (KeyError key)" if "key \<notin> set (columns ?m)"
    using that by (simp add: joiner_def mg bind_err_def dropna_subset_def)
  have ok: "joiner geo recs key =
                Inr \<lparr>columns = columns ?m,
                     rws = filter (\<lambda>r. cell_at (columns ?m) key r \<noteq> NA) (rws ?m)\<rparr> \<and>
              filter (\<lambda>r. cell_at (columns ?m) key r \<noteq> NA) (rws ?m) =
                map (joined_row recs) (joined_pairs geo recs key)"
    if kr: "key \<in> set (columns recs)" and kg: "key \<notin> set (columns geo)"
  proof -
    have mem: "(key, label) \<in> set metric_options" using cat by (rule map_of_SomeD)
    have nosuf: "c @ ''_x'' \<noteq> key \<and> c @ ''_y'' \<noteq> key" for c
      using mem by (rule catalog_key_no_suffix)
    have neq: "key \<noteq> ''GEOID''" using idg kg by auto
    have incols: "key \<in> set ?cols"
      using kr kg neq by (auto simp: merged_columns_def)
    have cellp: "cell_at ?cols key (joined_row recs p) = metric_of recs key p"
      if "p \<in> set (left_join geo recs)" for p
      using metric_cell[OF wfg wfr kr kg neq nosuf that] .
    have flt: "filter (\<lambda>r. cell_at ?cols key r \<noteq> NA) (map (joined_row recs) (left_join geo recs))
        = map (joined_row recs) (filter (\<lambda>p. metric_of recs key p \<noteq> NA) (left_join geo recs))"
      unfolding filter_map o_def
      by (rule arg_cong[where f = "map (joined_row recs)"], rule filter_cong[OF refl])
         (simp add: cellp)
    have "joiner geo recs key =
            Inr \<lparr>columns = ?cols, rws = filter (\<lambda>r. cell_at ?cols key r \<noteq> NA) (rws ?m)\<rparr>"
      using incols by (simp add: joiner_def mg bind_err_def dropna_subset_def)
    then show ?thesis using flt by (simp add: joined_pairs_def)
  qed
  show ?thesis
    using mg tk kept unm err ok by (intro exI[of _ ?m]) simp
qed


theorem joiner_left_join_then_filter_witness:
  "wf_frame sample_gdf \<and> wf_frame sample_df \<and>
   map_of metric_options ''gdp'' = Some ''GDP'' \<and>
   merge_left sample_gdf sample_df ''GEOID'' = Inr sample_merged \<and>
   rws sample_merged = map (joined_row sample_df) (left_join sample_gdf sample_df) \<and>
   set (map (take (length (columns sample_gdf))) (rws sample_merged)) = set (rws sample_gdf) \<and>
   rws sample_gdf ! 3 @ replicate 5 NA \<in> set (rws sample_merged) \<and>
   joiner sample_gdf sample_df ''gdp'' = Inr sample_joined \<and>
   rws sample_joined = filter (\<lambda>r. cell_at (columns sample_merged) ''gdp'' r \<noteq> NA) (rws sample_merged) \<and>
   rws sample_joined = map (joined_row sample_df) (joined_pairs sample_gdf sample_df ''gdp'') \<and>
   joined_pairs \<lparr>columns = [''GEOID''], rws = [[Str ''99999'']]\<rparr> sample_df ''gdp'' = [] \<and>
   joiner \<lparr>columns = [''GEOID''], rws = [[Str ''99999'']]\<rparr> sample_df ''gdp'' =
     Inr \<lparr>columns = merged_columns [''GEOID''] (columns sample_df) ''GEOID'', rws = []\<rparr>"
proof -
  let ?one = "\<lparr>columns = [''GEOID''], rws = [[Str ''99999'' :: int cell]]\<rparr>"
  have wf: "wf_frame sample_gdf" "wf_frame sample_df" "wf_frame ?one"
    by (simp_all add: wf_frame_def sample_gdf_def sample_df_def)
  have cols: "''GEOID'' \<in> set (columns sample_gdf)" "''GEOID'' \<in> set (columns sample_df)"
    "''GEOID'' \<in> set (columns ?one)"
    by (simp_all add: sample_gdf_def sample_df_def)
  have key: "''gdp'' \<in> set (columns sample_df) \<and> ''gdp'' \<notin> set (columns sample_gdf)"
    "''gdp'' \<in> set (columns sample_df) \<and> ''gdp'' \<notin> set (columns ?one)"
    by (simp_all add: sample_gdf_def sample_df_def)
  have cat: "map_of metric_options ''gdp'' = Some ''GDP''" "\<not> contains ''Coming Soon'' ''GDP''"
    by (simp_all add: metric_options_def)
  have last: "rws sample_gdf ! 3 \<in> set (rws sample_gdf)"
    "filter (\<lambda>r. cell_at (columns sample_df) ''GEOID'' r =
                 cell_at (columns sample_gdf) ''GEOID'' (rws sample_gdf ! 3)) (rws sample_df) = []"
    "length (filter (\<lambda>c. c \<noteq> ''GEOID'') (columns sample_df)) = 5"
    by (simp_all add: sample_gdf_def sample_df_def cell_at_def col_index_def)
  have none: "joined_pairs ?one sample_df ''gdp'' = []"
    by (simp add: joined_pairs_def left_join_def metric_of_def cell_at_def col_index_def
        sample_df_def)
  from joiner_left_join_then_filter[OF wf(1,2) cols(1,2) cat]
  obtain m where m: "merge_left sample_gdf sample_df ''GEOID'' = Inr m"
      "rws m = map (joined_row sample_df) (left_join sample_gdf sample_df)"
      "set (map (take (length (columns sample_gdf))) (rws m)) = set (rws sample_gdf)"
      "\<forall>g \<in> set (rws sample_gdf).
              filter (\<lambda>r. cell_at (columns sample_df) ''GEOID'' r = cell_at (columns sample_gdf) ''GEOID'' g)
                (rws sample_df) = [] \<longrightarrow>
              g @ replicate (length (filter (\<lambda>c. c \<noteq> ''GEOID'') (columns sample_df))) NA
                \<in> set (rws m)"
      "''gdp'' \<in> set (columns sample_df) \<and> ''gdp'' \<notin> set (columns sample_gdf) \<longrightarrow>
              joiner sample_gdf sample_df ''gdp'' =
                Inr \<lparr>columns = columns m,
                     rws = filter (\<lambda>r. cell_at (columns m) ''gdp'' r \<noteq> NA) (rws m)\<rparr> \<and>
              filter (\<lambda>r. cell_at (columns m) ''gdp'' r \<noteq> NA) (rws m) =
                map (joined_row sample_df) (joined_pairs sample_gdf sample_df ''gdp'')"
    by blast
  have eq: "m = sample_merged" using m(1) merge_sample by simp
  have a: "rws sample_merged = map (joined_row sample_df) (left_join sample_gdf sample_df)"
    "set (map (take (length (columns sample_gdf))) (rws sample_merged)) = set (rws sample_gdf)"
    using m(2,3) unfolding eq by simp_all
  have b: "rws sample_gdf ! 3 @ replicate 5 NA \<in> set (rws sample_merged)"
    using m(4) last unfolding eq by auto
  have c: "rws sample_joined = filter (\<lambda>r. cell_at (columns sample_merged) ''gdp'' r \<noteq> NA) (rws sample_merged)"
    "rws sample_joined = map (joined_row sample_df) (joined_pairs sample_gdf sample_df ''gdp'')"
  proof -
    from m(5) key(1)
    have j: "joiner sample_gdf sample_df ''gdp'' =
               Inr \<lparr>columns = columns sample_merged,
                    rws = filter (\<lambda>r. cell_at (columns sample_merged) ''gdp'' r \<noteq> NA) (rws sample_merged)\<rparr>"
      and f: "filter (\<lambda>r. cell_at (columns sample_merged) ''gdp'' r \<noteq> NA) (rws sample_merged) =
                map (joined_row sample_df) (joined_pairs sample_gdf sample_df ''gdp'')"
      unfolding eq by blast+
    from j joiner_sample
    have "sample_joined = \<lparr>columns = columns sample_merged,
                    rws = filter (\<lambda>r. cell_at (columns sample_merged) ''gdp'' r \<noteq> NA) (rws sample_merged)\<rparr>"
      by simp
    from arg_cong[OF this, of rws]
    show "rws sample_joined = filter (\<lambda>r. cell_at (columns sample_merged) ''gdp'' r \<noteq> NA) (rws sample_merged)"
      by simp
    then show "rws sample_joined = map (joined_row sample_df) (joined_pairs sample_gdf sample_df ''gdp'')"
      using f by simp
  qed
  from joiner_left_join_then_filter[OF wf(3,2) cols(3,2) cat]
  obtain m1 where m1m: "merge_left ?one sample_df ''GEOID'' = Inr m1"
    and m1: "columns m1 = merged_columns (columns ?one) (columns sample_df) ''GEOID''"
      "''gdp'' \<in> set (columns sample_df) \<and> ''gdp'' \<notin> set (columns ?one) \<longrightarrow>
              joiner ?one sample_df ''gdp'' =
                Inr \<lparr>columns = columns m1,
                     rws = filter (\<lambda>r. cell_at (columns m1) ''gdp'' r \<noteq> NA) (rws m1)\<rparr> \<and>
              filter (\<lambda>r. cell_at (columns m1) ''gdp'' r \<noteq> NA) (rws m1) =
                map (joined_row sample_df) (joined_pairs ?one sample_df ''gdp'')"
    by blast
  have d: "joiner ?one sample_df ''gdp'' =
     Inr \<lparr>columns = merged_columns [''GEOID''] (columns sample_df) ''GEOID'', rws = []\<rparr>"
    using m1 key(2) none by simp
  show ?thesis using wf(1,2) cat(1) merge_sample a b joiner_sample c none d by simp
qed

text \<open>
  C6 as stated fails for a record set without the metric column: the record table
  loaded from the sample file has no \<open>mail\<close> column (the loader skips an absent
  whitelist column), \<open>mail\<close> is an available metric of the catalog, and the Joiner
  raises KeyError instead of returning a table.
\<close>

theorem joiner_absent_metric_counterexample:
  "load_data sample_parse sample_csv sample_shp = Inr (sample_df, sample_gdf, numeric_cols) \<and>
   map_of metric_options ''mail'' = Some ''Mail'' \<and>
   \<not> contains ''Coming Soon'' ''Mail'' \<and>
   joiner sample_gdf sample_df ''mail'' = Inl (KeyError ''mail'')"
proof -
  have "joiner sample_gdf sample_df ''mail'' = Inl (KeyError ''mail'')"
    by (simp add: joiner_def merge_left_def dropna_subset_def bind_err_def sample_gdf_def
        sample_df_def merged_columns_def cell_at_def col_index_def drop_key_def)
  then show ?thesis using load_sample by (simp add: metric_options_def)
qed
section \<open>Ranking view\<close>

lemma present_rows_map:
  "present_rows (map k rs) rs = concat (map (\<lambda>r. case k r of Num v \<Rightarrow> [(v, r)] | _ \<Rightarrow> []) rs)"
  unfolding present_rows_def by (induction rs) auto

lemma snd_present_rows:
  "map snd (present_rows (map k rs) rs) = filter (\<lambda>r. is_num (k r)) rs"
  unfolding present_rows_map by (induction rs) (auto simp: is_num_def split: cell.splits)

lemma present_rows_key:
  "(v, r) \<in> set (present_rows (map k rs) rs) \<Longrightarrow> k r = Num v"
  unfolding present_rows_map by (induction rs) (auto split: cell.splits)

lemma present_rows_keys:
  "set xs \<subseteq> set (present_rows (map k rs) rs) \<Longrightarrow> map (\<lambda>p. k (snd p)) xs = map (\<lambda>p. Num (fst p)) xs"
  using present_rows_key[of _ _ k rs] by (intro map_cong refl) (auto simp: subset_iff)

lemma missing_rows_map:
  "missing_rows (map k rs) rs = filter (\<lambda>r. k r = NA) rs"
  unfolding missing_rows_def by (induction rs) auto

lemma argsort_set:
  assumes "argsort_ok a"
  shows "set (a xs) = {0..<length xs}"
proof -
  have "mset (a xs) = mset [0..<length xs]" using assms by (simp add: argsort_ok_def)
  then have "set (a xs) = set [0..<length xs]" by (rule mset_eq_setD)
  then show ?thesis by simp
qed

lemma argsort_perm:
  assumes "argsort_ok a"
  shows "mset (map (\<lambda>i. xs ! i) (a (map f xs))) = mset xs"
proof -
  have "mset (a (map f xs)) = mset [0..<length xs]" using assms by (simp add: argsort_ok_def)
  then have "mset (map (\<lambda>i. xs ! i) (a (map f xs))) = mset (map (\<lambda>i. xs ! i) [0..<length xs])"
    by (metis mset_map)
  then show ?thesis by (simp add: map_nth)
qed

lemma argsort_sorted:
  assumes "argsort_ok a"
  shows "sorted (map fst (map (\<lambda>i. xs ! i) (a (map fst xs))))"
proof -
  have "sorted (map (\<lambda>i. map fst xs ! i) (a (map fst xs)))"
    using assms by (simp add: argsort_ok_def)
  moreover have "map (\<lambda>i. map fst xs ! i) (a (map fst xs)) = map fst (map (\<lambda>i. xs ! i) (a (map fst xs)))"
    using argsort_set[OF assms, of "map fst xs"] by (auto intro!: map_cong)
  ultimately show ?thesis by simp
qed

lemma sort_desc_split:
  "sort_desc_na_last a ks rs = ranked_present a ks rs @ missing_rows ks rs"
  by (simp add: sort_desc_na_last_def ranked_present_def Let_def)

lemma mset_ranked_present:
  assumes "argsort_ok a"
  shows "mset (ranked_present a (map k rs) rs) = mset (filter (\<lambda>r. is_num (k r)) rs)"
proof -
  let ?rp = "rev (present_rows (map k rs) rs)"
  have "mset (map snd (rev (map (\<lambda>i. ?rp ! i) (a (map fst ?rp))))) = image_mset snd (mset (map (\<lambda>i. ?rp ! i) (a (map fst ?rp))))"
    by simp
  also have "\<dots> = image_mset snd (mset ?rp)"
    using argsort_perm[OF assms, of ?rp fst] by simp
  also have "\<dots> = mset (map snd (present_rows (map k rs) rs))" by simp
  finally show ?thesis by (simp add: ranked_present_def Let_def snd_present_rows)
qed

lemma ordered_subset:
  assumes "argsort_ok a"
  shows "set (map (\<lambda>i. xs ! i) (a (map f xs))) \<subseteq> set xs"
  using argsort_set[OF assms, of "map f xs"] by auto

lemma keys_ranked_present:
  assumes "argsort_ok a"
  shows "\<exists>vs. map k (ranked_present a (map k rs) rs) = map Num vs \<and> sorted (rev vs)"
proof -
  let ?rp = "rev (present_rows (map k rs) rs)"
  let ?ord = "map (\<lambda>i. ?rp ! i) (a (map fst ?rp))"
  have sub: "set (rev ?ord) \<subseteq> set (present_rows (map k rs) rs)"
    using ordered_subset[OF assms, of ?rp fst] by simp
  have "map k (ranked_present a (map k rs) rs) = map (\<lambda>p. k (snd p)) (rev ?ord)"
    by (simp add: ranked_present_def Let_def o_def)
  also have "\<dots> = map (\<lambda>p. Num (fst p)) (rev ?ord)"
    by (rule present_rows_keys[OF sub])
  also have "\<dots> = map Num (map fst (rev ?ord))" by (simp add: o_def)
  finally have "map k (ranked_present a (map k rs) rs) = map Num (map fst (rev ?ord))" .
  moreover have "sorted (rev (map fst (rev ?ord)))"
    using argsort_sorted[OF assms, of ?rp] by (simp add: rev_map)
  ultimately show ?thesis by blast
qed

lemma sorted_wrt_ranks_Num:
  "sorted_wrt ranks_before (map Num vs) = sorted (rev vs)"
proof -
  have "sorted_wrt ranks_before (map Num vs) = sorted_wrt (\<lambda>x y. y \<le> x) vs"
    by (simp add: sorted_wrt_map ranks_before_def)
  also have "\<dots> = sorted (rev vs)"
    by (simp add: sorted_wrt_rev)
  finally show ?thesis .
qed

lemma ranking_keys_sorted:
  assumes "argsort_ok a"
  shows "sorted_wrt ranks_before (map k (sort_desc_na_last a (map k rs) rs))"
proof -
  obtain vs where vs: "map k (ranked_present a (map k rs) rs) = map Num vs" "sorted (rev vs)"
    using keys_ranked_present[OF assms] by blast
  have miss: "map k (missing_rows (map k rs) rs) = replicate (length (filter (\<lambda>r. k r = NA) rs)) NA"
    unfolding missing_rows_map by (induction rs) auto
  have "sorted_wrt ranks_before (replicate n (NA :: 'a cell))" for n
    by (induction n) (auto simp: ranks_before_def)
  then show ?thesis
    unfolding sort_desc_split map_append vs(1) miss sorted_wrt_append
    using vs(2) by (auto simp: sorted_wrt_ranks_Num ranks_before_def)
qed

lemma stable_argsort_ok: "argsort_ok stable_argsort"
  by (simp add: argsort_ok_def stable_argsort_def)

lemma stable_ordered_filter:
  "filter (\<lambda>p. fst p = v) (map (\<lambda>i. xs ! i) (stable_argsort (map fst xs)))
     = filter (\<lambda>p. fst p = v) xs"
proof -
  let ?idx = "stable_argsort (map fst xs)"
  have set_idx: "set ?idx = {0..<length xs}"
    using argsort_set[OF stable_argsort_ok, of "map fst xs"] by simp
  have "filter (\<lambda>p. fst p = v) (map (\<lambda>i. xs ! i) ?idx)
      = map (\<lambda>i. xs ! i) (filter (\<lambda>i. fst (xs ! i) = v) ?idx)"
    by (simp add: filter_map o_def)
  also have "filter (\<lambda>i. fst (xs ! i) = v) ?idx = filter (\<lambda>i. map fst xs ! i = v) ?idx"
    using set_idx by (intro filter_cong refl) auto
  also have "\<dots> = filter (\<lambda>i. map fst xs ! i = v) [0..<length xs]"
    unfolding stable_argsort_def by (simp add: sort_key_stable)
  also have "\<dots> = filter (\<lambda>i. fst (xs ! i) = v) [0..<length xs]"
    by (intro filter_cong refl) auto
  also have "map (\<lambda>i. xs ! i) \<dots> = filter (\<lambda>p. fst p = v) (map (\<lambda>i. xs ! i) [0..<length xs])"
    by (simp add: filter_map o_def)
  also have "\<dots> = filter (\<lambda>p. fst p = v) xs" by (simp add: map_nth)
  finally show ?thesis .
qed

lemma ranked_present_no_NA:
  assumes "argsort_ok a"
  shows "filter (\<lambda>r. k r = NA) (ranked_present a (map k rs) rs) = []"
proof -
  obtain vs where "map k (ranked_present a (map k rs) rs) = map Num vs"
    using keys_ranked_present[OF assms] by blast
  then have "\<forall>c \<in> set (map k (ranked_present a (map k rs) rs)). c \<noteq> NA" by auto
  then show ?thesis by (auto simp: filter_empty_conv)
qed

lemma stable_ranking_filter:
  "filter (\<lambda>r. k r = Num v) (ranked_present stable_argsort (map k rs) rs)
     = filter (\<lambda>r. k r = Num v) rs"
proof -
  let ?P = "present_rows (map k rs) rs"
  let ?ord = "map (\<lambda>i. rev ?P ! i) (stable_argsort (map fst (rev ?P)))"
  have sub: "set ?ord \<subseteq> set ?P"
    using ordered_subset[OF stable_argsort_ok, of "rev ?P" fst] by simp
  have keyP: "k (snd p) = Num (fst p)" if "p \<in> set ?P" for p
    using present_rows_key[of "fst p" "snd p" k rs] that by simp
  have "filter (\<lambda>r. k r = Num v) (ranked_present stable_argsort (map k rs) rs)
      = map snd (filter (\<lambda>p. k (snd p) = Num v) (rev ?ord))"
    by (simp add: ranked_present_def Let_def filter_map o_def)
  also have "filter (\<lambda>p. k (snd p) = Num v) (rev ?ord) = filter (\<lambda>p. fst p = v) (rev ?ord)"
  proof (rule filter_cong[OF refl])
    fix p assume "p \<in> set (rev ?ord)"
    then have "p \<in> set ?ord" by simp
    then have "p \<in> set ?P" using sub by blast
    then have "k (snd p) = Num (fst p)" by (rule keyP)
    then show "(k (snd p) = Num v) = (fst p = v)" by simp
  qed
  also have "\<dots> = rev (filter (\<lambda>p. fst p = v) ?ord)" by (simp add: rev_filter)
  also have "\<dots> = rev (filter (\<lambda>p. fst p = v) (rev ?P))"
    by (simp only: stable_ordered_filter)
  also have "\<dots> = filter (\<lambda>p. fst p = v) ?P" by (simp add: rev_filter)
  also have "\<dots> = filter (\<lambda>p. k (snd p) = Num v) ?P"
  proof (rule filter_cong[OF refl])
    fix p assume "p \<in> set ?P"
    then have "k (snd p) = Num (fst p)" by (rule keyP)
    then show "(fst p = v) = (k (snd p) = Num v)" by simp
  qed
  also have "map snd \<dots> = filter (\<lambda>r. k r = Num v) (map snd ?P)"
    by (simp add: filter_map o_def)
  also have "\<dots> = filter (\<lambda>r. k r = Num v) rs"
    unfolding snd_present_rows by (auto simp: is_num_def intro!: filter_cong)
  finally show ?thesis .
qed

lemma no_text_num_iff:
  assumes "\<not> list_ex is_text (map k rs)" "r \<in> set rs"
  shows "is_num (k r) = (k r \<noteq> NA)"
proof -
  have "\<not> is_text (k r)" using assms by (auto simp: list_ex_iff)
  then show ?thesis by (cases "k r") (auto simp: is_num_def is_text_def)
qed

lemma sort_values_rows:
  assumes col: "metric \<in> set (columns t)"
    and num: "\<not> list_ex is_text (map (cell_at (columns t) metric) (rws t))"
  shows "sort_values a t metric =
           Inr (t\<lparr>rws := ranked_present a (map (cell_at (columns t) metric) (rws t)) (rws t) @
                          filter (\<lambda>r. cell_at (columns t) metric r = NA) (rws t)\<rparr>)"
proof -
  have get: "get_column t metric = Inr (map (cell_at (columns t) metric) (rws t))"
    using col by (simp add: get_column_def cell_at_def)
  show ?thesis
    unfolding sort_values_def get bind_err_def sum.case using num
    by (simp add: sort_desc_split missing_rows_map)
qed

lemma ranking_view_rows:
  assumes "sort_values a t metric = Inr s" and "columns s = columns t"
    and "set shown \<subseteq> set (columns t)"
  shows "ranking_view a t metric n shown =
           Inr \<lparr>columns = shown,
                rws = map (\<lambda>r. map (\<lambda>c. cell_at (columns t) c r) shown) (take n (rws s))\<rparr>"
proof -
  have "set shown \<subseteq> set (columns (head n s))" using assms(2,3) by (simp add: head_def)
  from select_cols_ok[OF this] show ?thesis
    using assms(1,2) by (simp add: ranking_view_def bind_err_def head_def)
qed

text \<open>
  C4 (amended). For a table with the ranking metric as a numeric column and the shown
  columns, and any \<open>argsort\<close> that meets the array library's contract, the sort succeeds
  and rearranges the rows so that the metric is in descending order with the missing
  values last; the top-N output is the first N rows of that arrangement, shown column
  by shown column, and is all of it when N is at least the row count. The order of rows
  with equal metric is the one \<open>argsort\<close> gives: it is the original row order when
  \<open>argsort\<close> is stable.
\<close>

theorem ranking_sorted_descending:
  fixes t :: "'n::linorder cell frame"
  assumes ok: "argsort_ok argsort" and col: "metric \<in> set (columns t)"
    and num: "\<not> list_ex is_text (map (cell_at (columns t) metric) (rws t))"
    and shown: "set shown \<subseteq> set (columns t)"
  shows "\<exists>s. sort_values argsort t metric = Inr s \<and> columns s = columns t \<and>
           mset (rws s) = mset (rws t) \<and>
           sorted_wrt ranks_before (map (cell_at (columns t) metric) (rws s)) \<and>
           ranking_view argsort t metric n shown =
             Inr \<lparr>columns = shown,
                  rws = map (\<lambda>r. map (\<lambda>c. cell_at (columns t) c r) shown) (take n (rws s))\<rparr> \<and>
           (length (rws t) \<le> n \<longrightarrow> take n (rws s) = rws s) \<and>
           (argsort = stable_argsort \<longrightarrow>
              (\<forall>c. filter (\<lambda>r. cell_at (columns t) metric r = c) (rws s) =
                   filter (\<lambda>r. cell_at (columns t) metric r = c) (rws t)))"
proof -
  let ?k = "cell_at (columns t) metric"
  let ?top = "ranked_present argsort (map ?k (rws t)) (rws t)"
  let ?s = "t\<lparr>rws := ?top @ filter (\<lambda>r. ?k r = NA) (rws t)\<rparr>"
  have sv: "sort_values argsort t metric = Inr ?s" by (rule sort_values_rows[OF col num])
  have cols: "columns ?s = columns t" by simp
  have "filter (\<lambda>r. is_num (?k r)) (rws t) = filter (\<lambda>r. ?k r \<noteq> NA) (rws t)"
    using no_text_num_iff[OF num] by (intro filter_cong refl) simp
  then have "mset ?top = mset (filter (\<lambda>r. ?k r \<noteq> NA) (rws t))"
    using mset_ranked_present[OF ok, of ?k "rws t"] by simp
  then have perm: "mset (rws ?s) = mset (rws t)"
    by (simp add: union_commute)
  have sorted: "sorted_wrt ranks_before (map ?k (rws ?s))"
    using ranking_keys_sorted[OF ok, of ?k "rws t"] by (simp add: sort_desc_split missing_rows_map)
  have view: "ranking_view argsort t metric n shown =
             Inr \<lparr>columns = shown,
                  rws = map (\<lambda>r. map (\<lambda>c. cell_at (columns t) c r) shown) (take n (rws ?s))\<rparr>"
    by (rule ranking_view_rows[OF sv cols shown])
  have len: "length (rws ?s) = length (rws t)"
    using perm by (rule mset_eq_length)
  have all: "take n (rws ?s) = rws ?s" if "length (rws t) \<le> n"
    using that len by simp
  have stable: "filter (\<lambda>r. ?k r = c) (rws ?s) = filter (\<lambda>r. ?k r = c) (rws t)"
    if st: "argsort = stable_argsort" for c
  proof (cases c)
    case NA
    then show ?thesis using ranked_present_no_NA[OF ok, of ?k "rws t"] by simp
  next
    case (Num v)
    then show ?thesis unfolding st by (simp add: stable_ranking_filter)
  next
    case (Str x)
    have "\<And>r. r \<in> set (rws ?s) \<Longrightarrow> r \<in> set (rws t)"
      using perm mset_eq_setD by blast
    moreover have "\<And>r. r \<in> set (rws t) \<Longrightarrow> ?k r \<noteq> Str x"
      using num by (auto simp: list_ex_iff is_text_def)
    ultimately have "filter (\<lambda>r. ?k r = c) (rws ?s) = []" "filter (\<lambda>r. ?k r = c) (rws t) = []"
      unfolding Str by (auto simp: filter_empty_conv)
    then show ?thesis by simp
  qed
  show ?thesis
    using sv cols perm sorted view all stable by blast
qed

lemma champions_stable:
  "hidden_champions stable_argsort sample_ties =
     Inr \<lparr>columns = [''county_state'', ''gdp'', ''population'', ''airport_count'',
                      ''Sustainable_Aviation_Fuels_degree_centrality'', ''SAF_FIRM_COUNT''],
          rws = [[Str ''C, Alabama'', Num 30, Num 300, Num 3, Num 7, Num 2],
                 [Str ''A, Alabama'', Num 10, Num 100, Num 1, Num 5, Num 0],
                 [Str ''B, Alabama'', Num 20, Num 200, Num 2, Num 5, Num 1],
                 [Str ''D, Alabama'', Num 40, Num 400, Num 4, NA, Num 0]]\<rparr>"
  by code_simp

theorem ranking_sorted_descending_witness:
  "argsort_ok (stable_argsort :: int list \<Rightarrow> nat list) \<and>
   (\<exists>s. sort_values stable_argsort sample_ties ''Sustainable_Aviation_Fuels_degree_centrality'' = Inr s \<and>
        mset (rws s) = mset (rws sample_ties) \<and>
        sorted_wrt ranks_before
          (map (cell_at (columns sample_ties) ''Sustainable_Aviation_Fuels_degree_centrality'') (rws s)) \<and>
        take 25 (rws s) = rws s \<and>
        filter (\<lambda>r. cell_at (columns sample_ties) ''Sustainable_Aviation_Fuels_degree_centrality'' r = Num 5) (rws s)
          = [rws sample_ties ! 0, rws sample_ties ! 2]) \<and>
   hidden_champions stable_argsort sample_ties =
     Inr \<lparr>columns = [''county_state'', ''gdp'', ''population'', ''airport_count'',
                      ''Sustainable_Aviation_Fuels_degree_centrality'', ''SAF_FIRM_COUNT''],
          rws = [[Str ''C, Alabama'', Num 30, Num 300, Num 3, Num 7, Num 2],
                 [Str ''A, Alabama'', Num 10, Num 100, Num 1, Num 5, Num 0],
                 [Str ''B, Alabama'', Num 20, Num 200, Num 2, Num 5, Num 1],
                 [Str ''D, Alabama'', Num 40, Num 400, Num 4, NA, Num 0]]\<rparr>"
proof -
  let ?m = "''Sustainable_Aviation_Fuels_degree_centrality''"
  let ?k = "cell_at (columns sample_ties) ?m"
  have col: "?m \<in> set (columns sample_ties)" by (simp add: sample_ties_def)
  have num: "\<not> list_ex is_text (map ?k (rws sample_ties))" by code_simp
  have shown: "set [''county_state''] \<subseteq> set (columns sample_ties)" by (simp add: sample_ties_def)
  have len: "length (rws sample_ties) \<le> 25" by (simp add: sample_ties_def)
  have ties: "filter (\<lambda>r. ?k r = Num 5) (rws sample_ties) = [rws sample_ties ! 0, rws sample_ties ! 2]"
    by code_simp
  from ranking_sorted_descending[OF stable_argsort_ok col num shown, of 25]
  obtain s where s: "sort_values stable_argsort sample_ties ?m = Inr s"
      "mset (rws s) = mset (rws sample_ties)"
      "sorted_wrt ranks_before (map ?k (rws s))"
      "length (rws sample_ties) \<le> 25 \<longrightarrow> take 25 (rws s) = rws s"
      "\<forall>c. filter (\<lambda>r. ?k r = c) (rws s) = filter (\<lambda>r. ?k r = c) (rws sample_ties)"
    by blast
  have "take 25 (rws s) = rws s" using s(4) len by simp
  moreover have "filter (\<lambda>r. ?k r = Num 5) (rws s) = [rws sample_ties ! 0, rws sample_ties ! 2]"
    using s(5) ties by simp
  ultimately show ?thesis using s(1,2,3) stable_argsort_ok champions_stable by blast
qed

text \<open>
  C4 as stated fails: \<open>sort_values\<close> is called without \<open>kind\<close>, so the array library
  sorts with its quicksort, which does not keep rows with equal metric in their original
  order. On the table of 24 counties whose centrality scores take four values the stable
  descending order lists the counties C F K P T U, A H J O S V, E G L M R W, B D I N Q X;
  the library's quicksort returns a permutation that sorts the scores, yet the ranking it
  gives is not that one.
\<close>

theorem ranking_ties_counterexample:
  "bind_err (hidden_champions stable_argsort sample_many_ties) (\<lambda>t. get_column t ''county_state'')
     = Inr (map (\<lambda>c. Str [c]) ''CFKPTUAHJOSVEGLMRWBDINQX'') \<and>
   hidden_champions numpy_argsort sample_many_ties \<noteq> hidden_champions stable_argsort sample_many_ties \<and>
   sort (numpy_argsort (rev tie_keys)) = [0..<24] \<and>
   sorted (map (\<lambda>i. rev tie_keys ! i) (numpy_argsort (rev tie_keys)))"
  by code_simp

text \<open>
  C7. For a table with the ranking metric as a numeric column and the shown columns,
  and any \<open>argsort\<close> that meets the array library's contract, the sort drops no row: the
  sorted table is a rearrangement \<open>top\<close> of the rows with a present metric followed by
  all the rows with a missing metric, in their original order. The top-N output is the
  first N rows of \<open>top\<close> followed, when N exceeds the number of rows with a present
  metric, by the first rows with a missing one.
\<close>

theorem missing_values_rank_last:
  fixes t :: "'n::linorder cell frame"
  assumes ok: "argsort_ok argsort" and col: "metric \<in> set (columns t)"
    and num: "\<not> list_ex is_text (map (cell_at (columns t) metric) (rws t))"
    and shown: "set shown \<subseteq> set (columns t)"
  shows "\<exists>s top. sort_values argsort t metric = Inr s \<and>
           rws s = top @ filter (\<lambda>r. cell_at (columns t) metric r = NA) (rws t) \<and>
           mset top = mset (filter (\<lambda>r. cell_at (columns t) metric r \<noteq> NA) (rws t)) \<and>
           ranking_view argsort t metric n shown =
             Inr \<lparr>columns = shown,
                  rws = map (\<lambda>r. map (\<lambda>c. cell_at (columns t) c r) shown)
                          (take n top @
                           take (n - length top)
                             (filter (\<lambda>r. cell_at (columns t) metric r = NA) (rws t)))\<rparr>"
proof -
  let ?k = "cell_at (columns t) metric"
  let ?top = "ranked_present argsort (map ?k (rws t)) (rws t)"
  let ?s = "t\<lparr>rws := ?top @ filter (\<lambda>r. ?k r = NA) (rws t)\<rparr>"
  have sv: "sort_values argsort t metric = Inr ?s" by (rule sort_values_rows[OF col num])
  have "filter (\<lambda>r. is_num (?k r)) (rws t) = filter (\<lambda>r. ?k r \<noteq> NA) (rws t)"
    using no_text_num_iff[OF num] by (intro filter_cong refl) simp
  then have top: "mset ?top = mset (filter (\<lambda>r. ?k r \<noteq> NA) (rws t))"
    using mset_ranked_present[OF ok, of ?k "rws t"] by simp
  have view: "ranking_view argsort t metric n shown =
             Inr \<lparr>columns = shown,
                  rws = map (\<lambda>r. map (\<lambda>c. cell_at (columns t) c r) shown) (take n (rws ?s))\<rparr>"
    by (rule ranking_view_rows[OF sv _ shown]) simp
  show ?thesis
    using sv top view by (intro exI[of _ ?s] exI[of _ ?top]) simp
qed

theorem missing_values_rank_last_witness:
  "argsort_ok (stable_argsort :: int list \<Rightarrow> nat list) \<and>
   (\<exists>s top. sort_values stable_argsort sample_df ''Sustainable_Aviation_Fuels_degree_centrality'' = Inr s \<and>
        rws s = top @ [rws sample_df ! 2] \<and>
        mset top = mset [rws sample_df ! 0, rws sample_df ! 1]) \<and>
   ranking_view stable_argsort sample_df ''Sustainable_Aviation_Fuels_degree_centrality'' 3
       [''county_state'', ''gdp'', ''Sustainable_Aviation_Fuels_degree_centrality'']
     = Inr \<lparr>columns = [''county_state'', ''gdp'', ''Sustainable_Aviation_Fuels_degree_centrality''],
            rws = [[NA, Num 20, Num 15],
                   [Str ''Autauga, Alabama'', Num 10, Num 5],
                   [Str ''Barbour, Alabama'', Num 30, NA]]\<rparr> \<and>
   ranking_view stable_argsort sample_df ''Sustainable_Aviation_Fuels_degree_centrality'' 2
       [''county_state'', ''gdp'', ''Sustainable_Aviation_Fuels_degree_centrality'']
     = Inr \<lparr>columns = [''county_state'', ''gdp'', ''Sustainable_Aviation_Fuels_degree_centrality''],
            rws = [[NA, Num 20, Num 15],
                   [Str ''Autauga, Alabama'', Num 10, Num 5]]\<rparr>"
proof -
  let ?m = "''Sustainable_Aviation_Fuels_degree_centrality''"
  let ?k = "cell_at (columns sample_df) ?m"
  let ?shown = "[''county_state'', ''gdp'', ''Sustainable_Aviation_Fuels_degree_centrality'']"
  have col: "?m \<in> set (columns sample_df)" by (simp add: sample_df_def)
  have num: "\<not> list_ex is_text (map ?k (rws sample_df))" by code_simp
  have shown: "set ?shown \<subseteq> set (columns sample_df)" by (simp add: sample_df_def)
  have miss: "filter (\<lambda>r. ?k r = NA) (rws sample_df) = [rws sample_df ! 2]" by code_simp
  have pres: "filter (\<lambda>r. ?k r \<noteq> NA) (rws sample_df) = [rws sample_df ! 0, rws sample_df ! 1]"
    by code_simp
  from missing_values_rank_last[OF stable_argsort_ok col num shown, of 3]
  obtain s top where s: "sort_values stable_argsort sample_df ?m = Inr s"
      "rws s = top @ filter (\<lambda>r. ?k r = NA) (rws sample_df)"
      "mset top = mset (filter (\<lambda>r. ?k r \<noteq> NA) (rws sample_df))"
    by blast
  have ex: "\<exists>s top. sort_values stable_argsort sample_df ?m = Inr s \<and>
        rws s = top @ [rws sample_df ! 2] \<and>
        mset top = mset [rws sample_df ! 0, rws sample_df ! 1]"
    using s unfolding miss pres by blast
  have v3: "ranking_view stable_argsort sample_df ?m 3 ?shown
     = Inr \<lparr>columns = ?shown,
            rws = [[NA, Num 20, Num 15],
                   [Str ''Autauga, Alabama'', Num 10, Num 5],
                   [Str ''Barbour, Alabama'', Num 30, NA]]\<rparr>"
    by code_simp
  have v2: "ranking_view stable_argsort sample_df ?m 2 ?shown
     = Inr \<lparr>columns = ?shown,
            rws = [[NA, Num 20, Num 15],
                   [Str ''Autauga, Alabama'', Num 10, Num 5]]\<rparr>"
    by code_simp
  show ?thesis using stable_argsort_ok ex v3 v2 by blast
qed

section \<open>Analysis view: degenerate fits\<close>

text \<open>
  C2 at concrete record sets. Lines 103-108 fit whatever rows \<open>dropna()\<close> leaves, without
  a check of their number or of the spread of X, and line 121 only hides a coefficient
  that is absent or NaN. With a single complete row (GDP 10, centrality 5) the fit has
  one row; with GDP equal to 2 in every row X has zero variance. In both cases
  \<open>add_constant\<close> takes the X column itself for the constant and adds none, the fit is a
  line through the origin, and the slope line is written with a finite value (0.5 and
  1) instead of being reported as unavailable. With no complete row the fit raises.
\<close>

theorem degenerate_fit_shows_slope:
  "plot_df sample_one_row ''gdp'' ''Sustainable_Aviation_Fuels_degree_centrality'' =
     Inr \<lparr>columns = [''gdp'', ''Sustainable_Aviation_Fuels_degree_centrality'', ''county_state''],
          rws = [[Num 10, Num 5, Str ''A, Alabama'']]\<rparr> \<and>
   scatter_slope sample_one_row ''gdp'' ''Sustainable_Aviation_Fuels_degree_centrality'' =
     Inr (SlopeShown (1 / 2)) \<and>
   scatter_slope sample_constant_x ''gdp'' ''Sustainable_Aviation_Fuels_degree_centrality'' =
     Inr (SlopeShown 1) \<and>
   scatter_slope sample_no_row ''gdp'' ''Sustainable_Aviation_Fuels_degree_centrality'' =
     Inl ValueError"
  by code_simp

end
